theory Spec2Isabelle
  imports Main "HOL-Library.AList" "HOL-Library.Multiset"
begin

section \<open>Strings as the server handles them\<close>

text \<open>
  A string is a list of code units below 256. Of the characters that JavaScript's
  \<^verbatim>\<open>trim\<close> and \<^verbatim>\<open>\s\<close> treat as white space, those below 256 are
  TAB, LF, VT, FF, CR, SPACE and NBSP; \<^verbatim>\<open>toLowerCase\<close> maps A-Z and the Latin-1
  capitals (all of 192..222 but the multiplication sign 215) 32 places up.
\<close>

definition isSpace :: "char \<Rightarrow> bool" where
  "isSpace c = (of_char c \<in> {9, 10, 11, 12, 13, 32, 160 :: nat})"

definition toLowerChar :: "char \<Rightarrow> char" where
  "toLowerChar c =
     (let n = (of_char c :: nat)
      in if (65 \<le> n \<and> n \<le> 90) \<or> (192 \<le> n \<and> n \<le> 222 \<and> n \<noteq> 215)
         then char_of (n + 32) else c)"

definition trim :: "string \<Rightarrow> string" where
  "trim s = rev (dropWhile isSpace (rev (dropWhile isSpace s)))"

text \<open>\<^verbatim>\<open>.replace(/\s+/g, " ")\<close>: every maximal run of white space becomes one space.\<close>

function collapse :: "string \<Rightarrow> string" where
  "collapse [] = []"
| "collapse (c # cs) =
     (if isSpace c then CHR '' '' # collapse (dropWhile isSpace cs) else c # collapse cs)"
  by pat_completeness auto
termination
  by (relation "measure length") (auto simp: length_dropWhile_le less_Suc_eq_le)

text \<open>
  \<^verbatim>\<open>normalize = (str) => String(str || "").trim().toLowerCase().replace(/\s+/g, " ")\<close>.
  An absent or null argument is the empty string here, as under \<^verbatim>\<open>str || ""\<close>.
\<close>

definition normalize_str :: "string \<Rightarrow> string" where
  "normalize_str str = collapse (map toLowerChar (trim str))"

text \<open>Decimal rendering of a number inside a template literal.\<close>

fun showNat :: "nat \<Rightarrow> string" where
  "showNat n =
     (if n < 10 then [char_of (48 + n)]
      else showNat (n div 10) @ [char_of (48 + n mod 10)])"

declare showNat.simps [simp del]

section \<open>Data model\<close>

datatype phase = Lobby | Drawing | Intermission | Gameover

text \<open>
  A player object. \<open>pid\<close> is the field \<^verbatim>\<open>id\<close> (the socket id). \<open>oid\<close> is the identity of
  the JavaScript object, which the source has implicitly: the delayed word delivery keeps
  a reference to the drawer object and reads its \<^verbatim>\<open>id\<close> when it fires.
\<close>

record player =
  pid :: string
  name :: string
  score :: nat
  connected :: bool
  disconnectedAt :: "int option"
  oid :: nat

text \<open>
  A room object. \<open>turnIndex\<close> is a JavaScript number: \<open>None\<close> is NaN, which
  \<^verbatim>\<open>(room.turnIndex + 1) % room.players.length\<close> produces on an empty player list.
\<close>

record room =
  rid :: string
  players :: "player list"
  word :: "string option"
  round :: nat
  turnIndex :: "nat option"
  guessedThisRound :: "string set"
  phase :: phase
  roundEndAt :: "int option"

definition MAX_PLAYERS_PER_ROOM :: nat where "MAX_PLAYERS_PER_ROOM = 8"
definition ROUND_MS :: int where "ROUND_MS = 60000"
definition INTERMISSION_MS :: int where "INTERMISSION_MS = 3000"
definition WINNING_SCORE :: nat where "WINNING_SCORE = 10"
definition MAX_ROUNDS :: nat where "MAX_ROUNDS = 6"

definition prompts :: "string list" where
  "prompts = [''Cat'', ''House'', ''Tree'', ''Car'', ''Sun'', ''Dog'', ''Boat'', ''Phone'',
              ''Book'', ''Computer'', ''Mountain'', ''Beach'', ''Rocket'', ''Pizza'']"

text \<open>
  \<^verbatim>\<open>pickWord\<close> draws a random index; the draw is an input of the model
  (\<open>pick\<close>, reduced into the range of the list).
\<close>

definition pickWord :: "nat \<Rightarrow> string" where
  "pickWord pick = prompts ! (pick mod length prompts)"

datatype jserror = TypeError

datatype endReason = Guessed | Timeout | Skipped

text \<open>The projection \<^verbatim>\<open>{ id: p.id, name: p.name, score: p.score }\<close>.\<close>

datatype pinfo = PInfo (info_id: string) (info_name: string) (info_score: nat)

definition toInfo :: "player \<Rightarrow> pinfo" where
  "toInfo p = PInfo (pid p) (name p) (score p)"

record room_state =
  rs_roomId :: string
  rs_players :: "pinfo list"
  rs_round :: nat
  rs_turnPlayerId :: "string option"
  rs_drawerId :: "string option"
  rs_phase :: phase
  rs_timeLeft :: "int option"

record game_over =
  go_roomId :: string
  go_winner :: "pinfo option"
  go_reason :: "string option"
  go_finalScores :: "pinfo list"

datatype payload =
    RoomsList "(string \<times> nat \<times> nat) list"
  | RoomState room_state
  | RoundWord "string option"
  | RoundClear string
  | RoundEnded string endReason
  | ScoreUpdate string "pinfo list"
  | GameOver game_over
  | ChatMessage string string string bool
  | DrawStroke string "(int \<times> int) list"
  | JoinError "string option" string "nat option"

text \<open>
  Who an emission is addressed to: \<^verbatim>\<open>io.emit\<close>, \<^verbatim>\<open>io.to(x).emit\<close>,
  \<^verbatim>\<open>socket.emit\<close> and \<^verbatim>\<open>socket.to(x).emit\<close> (the room \<open>x\<close> without the sender).
\<close>

datatype audience = IoAll | IoTo string | SocketEmit string | SocketTo string string

type_synonym emission = "audience \<times> payload"

datatype timerKind = RoundTimeout | IntermissionDone

text \<open>
  The pending \<^verbatim>\<open>setTimeout\<close> callbacks: the two deferred deletions (which capture a room
  id) and the word delivery (which captures the room object and the drawer object; the
  latter is \<open>None\<close> when \<^verbatim>\<open>room.players[...]\<close> was undefined).
\<close>

datatype deferred =
    DeletePrevRoom string
  | DeleteDisconnected string
  | WordDelivery nat "(nat \<times> string) option"

text \<open>
  The process state. Room objects live in \<open>heap\<close> (addresses are never reused); the
  \<^verbatim>\<open>rooms\<close> map keeps insertion order; an entry of \<open>roomTimers\<close> stands for the
  running interval, with the room object and the completion callback it closes over.
\<close>

record server =
  heap :: "nat \<Rightarrow> room"
  nextAddr :: nat
  rooms :: "(string \<times> nat) list"
  socketToRoom :: "string \<rightharpoonup> string"
  roomTimers :: "string \<rightharpoonup> nat \<times> timerKind"
  pending :: "deferred list"
  nextOid :: nat

definition newRoom :: "string \<Rightarrow> room" where
  "newRoom roomId =
     \<lparr> rid = roomId, players = [], word = None, round = 1, turnIndex = Some 0,
       guessedThisRound = {}, phase = Lobby, roundEndAt = None \<rparr>"

definition init :: server where
  "init = \<lparr> heap = (\<lambda>_. newRoom []), nextAddr = 0, rooms = [], socketToRoom = Map.empty,
            roomTimers = Map.empty, pending = [], nextOid = 0 \<rparr>"

definition updRoom :: "nat \<Rightarrow> (room \<Rightarrow> room) \<Rightarrow> server \<Rightarrow> server" where
  "updRoom a f s = s\<lparr> heap := (heap s)(a := f (heap s a)) \<rparr>"

section \<open>Helpers of the source\<close>

text \<open>\<^verbatim>\<open>xs[turnIndex % xs.length]\<close>: undefined on NaN and on the empty list.\<close>

definition indexMod :: "nat option \<Rightarrow> 'a list \<Rightarrow> 'a option" where
  "indexMod ti xs =
     (case ti of None \<Rightarrow> None
      | Some t \<Rightarrow> if xs = [] then None else Some (xs ! (t mod length xs)))"

text \<open>\<^verbatim>\<open>const o = xs.find(P); if (o) { mutate o }\<close> on a list of values.\<close>

fun updFirst :: "('a \<Rightarrow> bool) \<Rightarrow> ('a \<Rightarrow> 'a) \<Rightarrow> 'a list \<Rightarrow> 'a list" where
  "updFirst P f [] = []"
| "updFirst P f (x # xs) = (if P x then f x # xs else x # updFirst P f xs)"

fun findIndex :: "('a \<Rightarrow> bool) \<Rightarrow> 'a list \<Rightarrow> nat option" where
  "findIndex P [] = None"
| "findIndex P (x # xs) =
     (if P x then Some 0 else map_option Suc (findIndex P xs))"

definition getOrCreateRoom :: "string \<Rightarrow> server \<Rightarrow> server \<times> nat" where
  "getOrCreateRoom roomId s =
     (case map_of (rooms s) roomId of
        Some a \<Rightarrow> (s, a)
      | None \<Rightarrow>
          (let a = nextAddr s
           in (s\<lparr> heap := (heap s)(a := newRoom roomId), nextAddr := Suc a,
                   rooms := AList.update roomId a (rooms s) \<rparr>, a)))"

definition getPublicRooms :: "server \<Rightarrow> (string \<times> nat \<times> nat) list" where
  "getPublicRooms s =
     map (\<lambda>(k, a). (rid (heap s a), length (filter connected (players (heap s a))),
                     MAX_PLAYERS_PER_ROOM))
         (rooms s)"

definition broadcastRoomsList :: "server \<Rightarrow> emission list" where
  "broadcastRoomsList s =
     (let payload = RoomsList (getPublicRooms s)
      in [(IoAll, payload), (IoTo ''__rooms__'', payload)])"

definition roomStatePayload :: "int \<Rightarrow> room \<Rightarrow> room_state" where
  "roomStatePayload now room =
     (let connectedPlayers = filter connected (players room);
          drawer = indexMod (turnIndex room) connectedPlayers;
          timeLeftMs = (case roundEndAt room of
                          None \<Rightarrow> None
                        | Some t \<Rightarrow> if t = 0 then None else Some (max 0 (t - now)))
      in \<lparr> rs_roomId = rid room,
           rs_players = map toInfo connectedPlayers,
           rs_round = round room,
           rs_turnPlayerId = map_option pid drawer,
           rs_drawerId = (if phase room \<noteq> Lobby then map_option pid drawer else None),
           rs_phase = phase room,
           rs_timeLeft = map_option (\<lambda>ms. (ms + 999) div 1000) timeLeftMs \<rparr>)"

definition broadcastRoomState :: "int \<Rightarrow> room \<Rightarrow> emission list" where
  "broadcastRoomState now room = [(IoTo (rid room), RoomState (roomStatePayload now room))]"

definition emitScoreUpdate :: "room \<Rightarrow> emission list" where
  "emitScoreUpdate room =
     [(IoTo (rid room), ScoreUpdate (rid room) (map toInfo (players room)))]"

section \<open>End-of-game evaluation\<close>

record gameEnd =
  ended :: bool
  winner :: "player option"
  reasonText :: "string option"

text \<open>\<^verbatim>\<open>xs.reduce(f)\<close> with no initial value throws a TypeError on the empty array.\<close>

definition reduce1 :: "('a \<Rightarrow> 'a \<Rightarrow> 'a) \<Rightarrow> 'a list \<Rightarrow> jserror + 'a" where
  "reduce1 f xs = (case xs of [] \<Rightarrow> Inl TypeError | x # rest \<Rightarrow> Inr (foldl f x rest))"

definition tieReason :: "player \<Rightarrow> string" where
  "tieReason topPlayer =
     ''Game ended after '' @ showNat MAX_ROUNDS @ '' rounds. It's a tie at ''
       @ showNat (score topPlayer) @ '' points!''"

definition capReason :: "player \<Rightarrow> string" where
  "capReason topPlayer =
     ''Game ended after '' @ showNat MAX_ROUNDS @ '' rounds. '' @ name topPlayer
       @ '' wins with '' @ showNat (score topPlayer) @ '' points!''"

definition earlyReason :: "player \<Rightarrow> string" where
  "earlyReason w =
     name w @ '' reached '' @ showNat WINNING_SCORE @ '' points and wins the game early!''"

definition checkGameEnd :: "room \<Rightarrow> jserror + gameEnd" where
  "checkGameEnd room =
     (if round room \<ge> MAX_ROUNDS then
        (case reduce1 (\<lambda>prev curr. if score curr > score prev then curr else prev)
                (players room) of
           Inl e \<Rightarrow> Inl e
         | Inr topPlayer \<Rightarrow>
             (let tiedPlayers = filter (\<lambda>p. score p = score topPlayer) (players room)
              in if length tiedPlayers > 1
                 then Inr \<lparr> ended = True, winner = Some topPlayer,
                           reasonText = Some (tieReason topPlayer) \<rparr>
                 else Inr \<lparr> ended = True, winner = Some topPlayer,
                           reasonText = Some (capReason topPlayer) \<rparr>))
      else
        (case find (\<lambda>p. score p \<ge> WINNING_SCORE) (players room) of
           Some w \<Rightarrow> Inr \<lparr> ended = True, winner = Some w, reasonText = Some (earlyReason w) \<rparr>
         | None \<Rightarrow> Inr \<lparr> ended = False, winner = None, reasonText = None \<rparr>))"

section \<open>Rounds and timers\<close>

definition clearTimer :: "string \<Rightarrow> server \<Rightarrow> server" where
  "clearTimer roomId s = s\<lparr> roomTimers := (roomTimers s)(roomId := None) \<rparr>"

text \<open>
  \<^verbatim>\<open>startTimer(room, durationMs, onComplete)\<close>: \<open>a\<close> is the room object and
  \<open>onComplete\<close> names the callback the interval closes over.
\<close>

definition startTimer :: "int \<Rightarrow> nat \<Rightarrow> int \<Rightarrow> timerKind \<Rightarrow> server \<Rightarrow> server" where
  "startTimer now a durationMs onComplete s =
     (let s1 = clearTimer (rid (heap s a)) s;
          s2 = updRoom a (\<lambda>r. r\<lparr> roundEndAt := Some (now + durationMs) \<rparr>) s1
      in s2\<lparr> roomTimers := (roomTimers s2)(rid (heap s2 a) \<mapsto> (a, onComplete)) \<rparr>)"

text \<open>
  \<^verbatim>\<open>startRound(room)\<close>. The callers pass a room that exists, so the guard
  \<^verbatim>\<open>if (!room) return\<close> has no branch here. The word delivery is queued with the
  drawer object (its identity and the id it has now).
\<close>

definition startRound :: "int \<Rightarrow> nat \<Rightarrow> nat \<Rightarrow> server \<Rightarrow> server \<times> emission list" where
  "startRound now pick a s =
     (if length (players (heap s a)) < 2 then
        (let s1 = updRoom a (\<lambda>r. r\<lparr> phase := Lobby, word := None \<rparr>) s
         in (s1, [(IoTo (rid (heap s1 a)), RoundEnded (rid (heap s1 a)) Timeout)]
                 @ broadcastRoomState now (heap s1 a)))
      else
        (let s1 = updRoom a (\<lambda>r. r\<lparr> phase := Drawing, guessedThisRound := {} \<rparr>) s;
             drawer = indexMod (turnIndex (heap s1 a)) (players (heap s1 a));
             s2 = updRoom a (\<lambda>r. r\<lparr> word := Some (pickWord pick) \<rparr>) s1;
             s3 = startTimer now a ROUND_MS RoundTimeout s2;
             s4 = s3\<lparr> pending := pending s3
                        @ [WordDelivery a (map_option (\<lambda>d. (oid d, pid d)) drawer)] \<rparr>
         in (s4, [(IoTo (rid (heap s3 a)), RoundClear (rid (heap s3 a)))]
                 @ broadcastRoomState now (heap s3 a)
                 @ broadcastRoomsList s3)))"

text \<open>
  \<^verbatim>\<open>.sort((a, b) => b.score - a.score)\<close>: a stable sort, descending by score.
\<close>

definition finalScoresOf :: "room \<Rightarrow> pinfo list" where
  "finalScoresOf room = sort_key (\<lambda>i. - int (info_score i)) (map toInfo (players room))"

definition gameOverPayload :: "room \<Rightarrow> gameEnd \<Rightarrow> game_over" where
  "gameOverPayload room gameEnd =
     \<lparr> go_roomId = rid room,
       go_winner = (case winner gameEnd of Some w \<Rightarrow> Some (toInfo w) | None \<Rightarrow> None),
       go_reason = reasonText gameEnd,
       go_finalScores = finalScoresOf room \<rparr>"

text \<open>
  \<^verbatim>\<open>endRound(room, reason)\<close>. A TypeError thrown by \<^verbatim>\<open>checkGameEnd\<close> leaves the
  function (and its caller) at once; nothing in the source catches it.
\<close>

definition endRound ::
  "int \<Rightarrow> nat \<Rightarrow> endReason \<Rightarrow> server \<Rightarrow> jserror + server \<times> emission list" where
  "endRound now a reason s =
     (let s1 = updRoom a (\<lambda>r. r\<lparr> phase := Intermission \<rparr>) s;
          s2 = clearTimer (rid (heap s1 a)) s1;
          out1 = [(IoTo (rid (heap s2 a)), RoundEnded (rid (heap s2 a)) reason)]
      in case checkGameEnd (heap s2 a) of
           Inl e \<Rightarrow> Inl e
         | Inr gameEnd \<Rightarrow>
             if ended gameEnd then
               (let s3 = updRoom a (\<lambda>r. r\<lparr> phase := Gameover \<rparr>) s2
                in Inr (s3, out1
                            @ [(IoTo (rid (heap s3 a)),
                                GameOver (gameOverPayload (heap s3 a) gameEnd))]
                            @ broadcastRoomState now (heap s3 a)
                            @ broadcastRoomsList s3))
             else
               (let out2 = out1 @ broadcastRoomState now (heap s2 a) @ broadcastRoomsList s2
                in if length (players (heap s2 a)) \<ge> 2 then
                     Inr (startTimer now a INTERMISSION_MS IntermissionDone s2, out2)
                   else
                     (let s3 = updRoom a (\<lambda>r. r\<lparr> word := None, roundEndAt := None,
                                                  phase := Lobby \<rparr>) s2
                      in Inr (s3, out2 @ broadcastRoomState now (heap s3 a)))))"

text \<open>The callback of the intermission timer (the closure inside \<^verbatim>\<open>endRound\<close>).\<close>

definition intermissionDone ::
  "int \<Rightarrow> nat \<Rightarrow> nat \<Rightarrow> server \<Rightarrow> server \<times> emission list" where
  "intermissionDone now pick a s =
     (let s1 = updRoom a (\<lambda>r. r\<lparr> turnIndex :=
                                   (case turnIndex r of
                                      None \<Rightarrow> None
                                    | Some t \<Rightarrow> if players r = [] then None
                                               else Some ((t + 1) mod length (players r))),
                                 round := round r + 1,
                                 guessedThisRound := {},
                                 word := None \<rparr>) s
      in startRound now pick a s1)"

text \<open>
  One call of the interval callback of the timer registered under \<open>roomId\<close>
  (no such timer: nothing runs).
\<close>

definition timerTick ::
  "int \<Rightarrow> nat \<Rightarrow> string \<Rightarrow> server \<Rightarrow> jserror + server \<times> emission list" where
  "timerTick now pick roomId s =
     (case roomTimers s roomId of
        None \<Rightarrow> Inr (s, [])
      | Some (a, onComplete) \<Rightarrow>
          (let remaining = (case roundEndAt (heap s a) of None \<Rightarrow> 0 | Some t \<Rightarrow> t) - now
           in if remaining \<le> 0 then
                (let s1 = clearTimer (rid (heap s a)) s;
                     s2 = updRoom a (\<lambda>r. r\<lparr> roundEndAt := None \<rparr>) s1;
                     out = broadcastRoomState now (heap s2 a)
                 in case onComplete of
                      RoundTimeout \<Rightarrow>
                        (case endRound now a Timeout s2 of
                           Inl e \<Rightarrow> Inl e
                         | Inr (s3, out3) \<Rightarrow> Inr (s3, out @ out3))
                    | IntermissionDone \<Rightarrow>
                        (case intermissionDone now pick a s2 of
                           (s3, out3) \<Rightarrow> Inr (s3, out @ out3)))
              else Inr (s, broadcastRoomState now (heap s a))))"

definition deleteRoom :: "string \<Rightarrow> server \<Rightarrow> server" where
  "deleteRoom roomId s = s\<lparr> rooms := AList.delete roomId (rooms s) \<rparr>"

text \<open>
  The \<open>n\<close>-th pending \<^verbatim>\<open>setTimeout\<close> callback fires (and is consumed). The word
  delivery reads \<^verbatim>\<open>drawer.id\<close>, a TypeError when the drawer is undefined.
\<close>

definition deferredFire :: "nat \<Rightarrow> server \<Rightarrow> jserror + server \<times> emission list" where
  "deferredFire n s =
     (if n < length (pending s) then
        (let d = pending s ! n;
             s1 = s\<lparr> pending := take n (pending s) @ drop (Suc n) (pending s) \<rparr>
         in case d of
              DeletePrevRoom prevRoomId \<Rightarrow>
                (case map_of (rooms s1) prevRoomId of
                   Some a \<Rightarrow>
                     if players (heap s1 a) = [] then
                       (let s2 = deleteRoom prevRoomId s1 in Inr (s2, broadcastRoomsList s2))
                     else Inr (s1, [])
                 | None \<Rightarrow> Inr (s1, []))
            | DeleteDisconnected roomId \<Rightarrow>
                (case map_of (rooms s1) roomId of
                   Some a \<Rightarrow>
                     if filter connected (players (heap s1 a)) = [] then
                       (let s2 = deleteRoom roomId s1 in Inr (s2, broadcastRoomsList s2))
                     else Inr (s1, [])
                 | None \<Rightarrow> Inr (s1, []))
            | WordDelivery a drawer \<Rightarrow>
                (case drawer of
                   None \<Rightarrow> Inl TypeError
                 | Some (_, drawerId) \<Rightarrow>
                     Inr (s1, [(IoTo drawerId, RoundWord (word (heap s1 a)))])))
      else Inr (s, []))"

section \<open>Socket handlers\<close>

text \<open>
  \<open>sid\<close> is \<^verbatim>\<open>socket.id\<close>. A payload field is a string; an absent field is the empty
  string, which \<^verbatim>\<open>x || d\<close> treats alike. Joining and leaving the transport's
  broadcast groups (\<^verbatim>\<open>socket.join\<close>, \<^verbatim>\<open>socket.leave\<close>) and the console log are
  outside the model.
\<close>

definition cleanRoomIdOf :: "string \<Rightarrow> string" where
  "cleanRoomIdOf roomId =
     (let t = trim (if roomId = [] then ''lobby-1'' else roomId)
      in if t = [] then ''lobby-1'' else t)"

text \<open>\<^verbatim>\<open>player:join\<close>, the block "Leave previous room if any".\<close>

definition leavePreviousRoom ::
  "int \<Rightarrow> string \<Rightarrow> string \<Rightarrow> server \<Rightarrow> server \<times> emission list" where
  "leavePreviousRoom now sid cleanRoomId s =
     (case socketToRoom s sid of
        None \<Rightarrow> (s, [])
      | Some prevRoomId \<Rightarrow>
          if prevRoomId \<noteq> [] \<and> prevRoomId \<noteq> cleanRoomId then
            (case map_of (rooms s) prevRoomId of
               None \<Rightarrow> (s, [])
             | Some a \<Rightarrow>
                 (let s1 = updRoom a (\<lambda>r. r\<lparr> players :=
                                               filter (\<lambda>p. pid p \<noteq> sid) (players r) \<rparr>) s
                  in if players (heap s1 a) = [] then
                       (s1\<lparr> pending := pending s1 @ [DeletePrevRoom prevRoomId] \<rparr>, [])
                     else
                       (let s2 = (case turnIndex (heap s1 a) of
                                    None \<Rightarrow> s1
                                  | Some t \<Rightarrow>
                                      if t \<ge> length (players (heap s1 a))
                                      then updRoom a (\<lambda>r. r\<lparr> turnIndex := Some 0 \<rparr>) s1
                                      else s1)
                        in (s2, broadcastRoomState now (heap s2 a)))))
          else (s, []))"

text \<open>The reconnection test of \<^verbatim>\<open>player:join\<close> (30 second grace period).\<close>

definition isRejoin :: "int \<Rightarrow> string \<Rightarrow> player \<Rightarrow> bool" where
  "isRejoin now cleanName p =
     (name p = cleanName \<and> \<not> connected p \<and>
      (case disconnectedAt p of None \<Rightarrow> False | Some t \<Rightarrow> t \<noteq> 0 \<and> now - t < 30000))"

text \<open>
  \<^verbatim>\<open>disconnectedPlayer.id = socket.id\<close> writes to an object that a queued word
  delivery may hold: the delivery then sees the new id.
\<close>

definition retarget :: "nat \<Rightarrow> string \<Rightarrow> deferred \<Rightarrow> deferred" where
  "retarget obj sid d =
     (case d of
        WordDelivery a (Some (obj', drawerId)) \<Rightarrow>
          if obj' = obj then WordDelivery a (Some (obj', sid)) else d
      | _ \<Rightarrow> d)"

text \<open>The end of \<^verbatim>\<open>player:join\<close>, from \<^verbatim>\<open>socketToRoom.set\<close> on.\<close>

definition joinFinish ::
  "int \<Rightarrow> nat \<Rightarrow> string \<Rightarrow> string \<Rightarrow> string \<Rightarrow> nat \<Rightarrow> server \<Rightarrow> server \<times> emission list" where
  "joinFinish now pick sid cleanRoomId cleanName a s =
     (let s1 = s\<lparr> socketToRoom := (socketToRoom s)(sid \<mapsto> cleanRoomId) \<rparr>;
          out1 = [(IoTo cleanRoomId,
                   ChatMessage cleanRoomId ''System'' (cleanName @ '' joined the room'') True)];
          (s2, out2) = (if length (players (heap s1 a)) \<ge> 2 \<and> phase (heap s1 a) = Lobby
                        then startRound now pick a s1
                        else (s1, broadcastRoomState now (heap s1 a)))
      in (s2, out1 @ out2 @ broadcastRoomsList s2))"

definition playerJoin ::
  "int \<Rightarrow> nat \<Rightarrow> string \<Rightarrow> string \<Rightarrow> string \<Rightarrow> server \<Rightarrow> server \<times> emission list" where
  "playerJoin now pick sid roomId nm s =
     (let cleanName = trim nm
      in if cleanName = [] then
           (s, [(SocketEmit sid, JoinError None ''Name is required to join a room'' None)])
         else
           (let cleanRoomId = cleanRoomIdOf roomId;
                (s1, out1) = leavePreviousRoom now sid cleanRoomId s;
                (s2, a) = getOrCreateRoom cleanRoomId s1
            in case find (isRejoin now cleanName) (players (heap s2 a)) of
                 Some disconnectedPlayer \<Rightarrow>
                   (let s3 = updRoom a (\<lambda>r. r\<lparr> players :=
                                  updFirst (isRejoin now cleanName)
                                    (\<lambda>p. p\<lparr> pid := sid, connected := True,
                                            disconnectedAt := None \<rparr>) (players r) \<rparr>) s2;
                        s4 = s3\<lparr> pending :=
                                  map (retarget (oid disconnectedPlayer) sid) (pending s3) \<rparr>;
                        (s5, out5) = joinFinish now pick sid cleanRoomId cleanName a s4
                    in (s5, out1 @ out5))
               | None \<Rightarrow>
                   (let existing = find (\<lambda>p. pid p = sid) (players (heap s2 a));
                        activePlayerCount = length (filter connected (players (heap s2 a)))
                    in if existing = None \<and> activePlayerCount \<ge> MAX_PLAYERS_PER_ROOM then
                         (s2, out1 @ [(SocketEmit sid,
                                       JoinError (Some cleanRoomId) ''Room is full''
                                         (Some MAX_PLAYERS_PER_ROOM)),
                                      (SocketEmit sid, RoomsList (getPublicRooms s2))])
                       else
                         (let s3 = (if existing \<noteq> None then
                                      updRoom a (\<lambda>r. r\<lparr> players :=
                                        updFirst (\<lambda>p. pid p = sid)
                                          (\<lambda>p. p\<lparr> name := cleanName, connected := True,
                                                  disconnectedAt := None \<rparr>) (players r) \<rparr>) s2
                                    else
                                      (updRoom a (\<lambda>r. r\<lparr> players :=
                                         filter (\<lambda>p. \<not> (name p = cleanName \<and> \<not> connected p))
                                           (players r)
                                         @ [\<lparr> pid = sid, name = cleanName, score = 0,
                                              connected = True, disconnectedAt = None,
                                              oid = nextOid s2 \<rparr>] \<rparr>) s2)
                                      \<lparr> nextOid := Suc (nextOid s2) \<rparr>);
                              (s5, out5) = joinFinish now pick sid cleanRoomId cleanName a s3
                          in (s5, out1 @ out5)))))"

definition playerLeave ::
  "int \<Rightarrow> string \<Rightarrow> string \<Rightarrow> server \<Rightarrow> jserror + server \<times> emission list" where
  "playerLeave now sid roomId s =
     (let cleanRoomId = trim roomId;
          actualRoomId = (if cleanRoomId \<noteq> [] then Some cleanRoomId else socketToRoom s sid)
      in case actualRoomId of
           None \<Rightarrow> Inr (s, [])
         | Some k \<Rightarrow>
             if k = [] then Inr (s, [])
             else
               (case map_of (rooms s) k of
                  None \<Rightarrow> Inr (s, [])
                | Some a \<Rightarrow>
                    (let s1 = s\<lparr> socketToRoom := (socketToRoom s)(sid := None) \<rparr>;
                         room = heap s1 a;
                         index = findIndex (\<lambda>p. pid p = sid) (players room);
                         leavingWasDrawer =
                           (case index of
                              None \<Rightarrow> False
                            | Some i \<Rightarrow>
                                (case turnIndex room of
                                   None \<Rightarrow> False
                                 | Some t \<Rightarrow>
                                     i = t mod (if players room = [] then 1
                                                else length (players room))));
                         leavingName = (case index of
                                          None \<Rightarrow> ''Player''
                                        | Some i \<Rightarrow> name (players room ! i));
                         s2 = (case index of
                                 None \<Rightarrow> s1
                               | Some i \<Rightarrow>
                                   updRoom a (\<lambda>r. r\<lparr>
                                     players := take i (players r) @ drop (Suc i) (players r),
                                     turnIndex := (case turnIndex r of
                                                     None \<Rightarrow> None
                                                   | Some t \<Rightarrow> if i < t then Some (max 0 (t - 1))
                                                              else Some t) \<rparr>) s1);
                         out1 = [(IoTo k, ChatMessage k ''System''
                                            (leavingName @ '' left the room'') True)]
                     in if players (heap s2 a) = [] then
                          (let s3 = deleteRoom k s2 in Inr (s3, out1 @ broadcastRoomsList s3))
                        else if length (players (heap s2 a)) < 2 then
                          (let s3 = updRoom a (\<lambda>r. r\<lparr> phase := Lobby, word := None \<rparr>) s2
                           in Inr (s3, out1 @ broadcastRoomState now (heap s3 a)
                                            @ broadcastRoomsList s3))
                        else if leavingWasDrawer \<and> phase (heap s2 a) = Drawing then
                          (case endRound now a Timeout s2 of
                             Inl e \<Rightarrow> Inl e
                           | Inr (s3, out3) \<Rightarrow> Inr (s3, out1 @ out3))
                        else Inr (s2, out1 @ broadcastRoomState now (heap s2 a)
                                           @ broadcastRoomsList s2))))"

definition chatMessage :: "string \<Rightarrow> string \<Rightarrow> string \<Rightarrow> server \<Rightarrow> server \<times> emission list" where
  "chatMessage sid roomId message s =
     (let cleanRoomId = trim roomId
      in case map_of (rooms s) cleanRoomId of
           None \<Rightarrow> (s, [])
         | Some a \<Rightarrow>
             (case find (\<lambda>p. pid p = sid) (players (heap s a)) of
                None \<Rightarrow> (s, [])
              | Some player \<Rightarrow>
                  (let text = trim message
                   in if text = [] then (s, [])
                      else if (case word (heap s a) of
                                 None \<Rightarrow> False
                               | Some w \<Rightarrow> w \<noteq> [] \<and> normalize_str text = normalize_str w)
                      then (s, [])
                      else (s, [(IoTo cleanRoomId,
                                 ChatMessage cleanRoomId (name player) text False)]))))"

text \<open>
  \<^verbatim>\<open>guess:submit\<close>, the two score lines: \<^verbatim>\<open>player.score += 2\<close> on the entry found for
  the sender, then \<^verbatim>\<open>if (drawerInRoom) drawerInRoom.score += 1\<close> on the entry found for
  the drawer's id.
\<close>

definition awardPoints :: "string \<Rightarrow> string \<Rightarrow> player list \<Rightarrow> player list" where
  "awardPoints sid drawerId ps =
     (let ps1 = updFirst (\<lambda>p. pid p = sid) (\<lambda>p. p\<lparr> score := score p + 2 \<rparr>) ps
      in case find (\<lambda>p. pid p = drawerId) ps1 of
           Some drawerInRoom \<Rightarrow>
             updFirst (\<lambda>p. pid p = drawerId) (\<lambda>p. p\<lparr> score := score p + 1 \<rparr>) ps1
         | None \<Rightarrow> ps1)"

definition guessSubmit ::
  "int \<Rightarrow> string \<Rightarrow> string \<Rightarrow> string \<Rightarrow> server \<Rightarrow> jserror + server \<times> emission list" where
  "guessSubmit now sid roomId guess s =
     (let cleanRoomId = trim roomId
      in case map_of (rooms s) cleanRoomId of
           None \<Rightarrow> Inr (s, [])
         | Some a \<Rightarrow>
             if phase (heap s a) \<noteq> Drawing then Inr (s, [])
             else
               (case find (\<lambda>p. pid p = sid) (players (heap s a)) of
                  None \<Rightarrow> Inr (s, [])
                | Some player \<Rightarrow>
                    (case indexMod (turnIndex (heap s a)) (players (heap s a)) of
                       None \<Rightarrow> Inr (s, [])
                     | Some drawer \<Rightarrow>
                         if pid drawer = sid then Inr (s, [])
                         else
                           (let guessNorm = normalize_str guess;
                                wordNorm = normalize_str
                                             (case word (heap s a) of None \<Rightarrow> [] | Some w \<Rightarrow> w)
                            in if guessNorm = [] then Inr (s, [])
                               else if guessedThisRound (heap s a) \<noteq> {} then Inr (s, [])
                               else if guessNorm = wordNorm then
                                 (let s1 = updRoom a (\<lambda>r. r\<lparr>
                                             players := awardPoints sid (pid drawer) (players r),
                                             guessedThisRound :=
                                               insert sid (guessedThisRound r) \<rparr>) s;
                                      out1 = emitScoreUpdate (heap s1 a)
                                             @ [(IoTo cleanRoomId,
                                                 ChatMessage cleanRoomId ''System''
                                                   (name player @ '' guessed it!'') True)]
                                  in case endRound now a Guessed s1 of
                                       Inl e \<Rightarrow> Inl e
                                     | Inr (s2, out2) \<Rightarrow> Inr (s2, out1 @ out2))
                               else Inr (s, [])))))"

definition drawStroke ::
  "string \<Rightarrow> string \<Rightarrow> (int \<times> int) list \<Rightarrow> server \<Rightarrow> server \<times> emission list" where
  "drawStroke sid roomId points s =
     (let cleanRoomId = trim roomId
      in case map_of (rooms s) cleanRoomId of
           None \<Rightarrow> (s, [])
         | Some a \<Rightarrow>
             (case indexMod (turnIndex (heap s a)) (players (heap s a)) of
                None \<Rightarrow> (s, [])
              | Some drawer \<Rightarrow>
                  if pid drawer \<noteq> sid then (s, [])
                  else if points = [] then (s, [])
                  else (s, [(SocketTo sid cleanRoomId, DrawStroke cleanRoomId points)])))"

definition roundClear :: "string \<Rightarrow> string \<Rightarrow> server \<Rightarrow> server \<times> emission list" where
  "roundClear sid roomId s =
     (let cleanRoomId = trim roomId
      in case map_of (rooms s) cleanRoomId of
           None \<Rightarrow> (s, [])
         | Some a \<Rightarrow>
             (case indexMod (turnIndex (heap s a)) (players (heap s a)) of
                None \<Rightarrow> (s, [])
              | Some drawer \<Rightarrow>
                  if pid drawer \<noteq> sid then (s, [])
                  else (s, [(IoTo cleanRoomId, RoundClear cleanRoomId)])))"

definition roundStart :: "int \<Rightarrow> nat \<Rightarrow> string \<Rightarrow> server \<Rightarrow> server \<times> emission list" where
  "roundStart now pick roomId s =
     (case map_of (rooms s) roomId of
        None \<Rightarrow> (s, [])
      | Some a \<Rightarrow>
          if length (players (heap s a)) \<ge> 2 \<and> phase (heap s a) \<noteq> Drawing
          then startRound now pick a s
          else (s, []))"

definition roomClose :: "string \<Rightarrow> string \<Rightarrow> server \<Rightarrow> server \<times> emission list" where
  "roomClose sid roomId s =
     (let cleanRoomId = trim roomId
      in case map_of (rooms s) cleanRoomId of
           None \<Rightarrow> (s, [])
         | Some a \<Rightarrow>
             (case indexMod (turnIndex (heap s a)) (players (heap s a)) of
                None \<Rightarrow> (s, [])
              | Some drawer \<Rightarrow>
                  if pid drawer \<noteq> sid then (s, [])
                  else
                    (let s1 = deleteRoom cleanRoomId s
                     in (s1, [(IoTo cleanRoomId,
                               ChatMessage cleanRoomId ''System''
                                 ''Room was closed by the drawer.'' True)]
                             @ broadcastRoomsList s1))))"

definition roundSkip ::
  "int \<Rightarrow> string \<Rightarrow> string \<Rightarrow> server \<Rightarrow> jserror + server \<times> emission list" where
  "roundSkip now sid roomId s =
     (case map_of (rooms s) roomId of
        None \<Rightarrow> Inr (s, [])
      | Some a \<Rightarrow>
          (case indexMod (turnIndex (heap s a)) (players (heap s a)) of
             None \<Rightarrow> Inr (s, [])
           | Some drawer \<Rightarrow>
               if pid drawer \<noteq> sid then Inr (s, [])
               else endRound now a Skipped s))"

definition gameRestart :: "int \<Rightarrow> nat \<Rightarrow> string \<Rightarrow> server \<Rightarrow> server \<times> emission list" where
  "gameRestart now pick roomId s =
     (case map_of (rooms s) roomId of
        None \<Rightarrow> (s, [])
      | Some a \<Rightarrow>
          if phase (heap s a) \<noteq> Gameover then (s, [])
          else
            (let s1 = updRoom a (\<lambda>r. r\<lparr>
                        players := map (\<lambda>p. p\<lparr> score := 0 \<rparr>) (players r),
                        round := 1, turnIndex := Some 0, word := None,
                        guessedThisRound := {},
                        phase := (if length (players r) \<ge> 2 then Drawing else Lobby) \<rparr>) s;
                 (s2, out2) = (if length (players (heap s1 a)) \<ge> 2
                               then startRound now pick a s1
                               else (s1, broadcastRoomState now (heap s1 a)))
             in (s2, out2 @ [(IoTo (rid (heap s2 a)),
                              ChatMessage (rid (heap s2 a)) ''System''
                                ''Game restarted! Starting fresh...'' True)])))"

definition disconnect ::
  "int \<Rightarrow> string \<Rightarrow> server \<Rightarrow> jserror + server \<times> emission list" where
  "disconnect now sid s =
     (case socketToRoom s sid of
        None \<Rightarrow> Inr (s, [])
      | Some roomId \<Rightarrow>
          if roomId = [] then Inr (s, [])
          else
            (let s1 = s\<lparr> socketToRoom := (socketToRoom s)(sid := None) \<rparr>
             in case map_of (rooms s) roomId of
                  None \<Rightarrow> Inr (s1, [])
                | Some a \<Rightarrow>
                    (case find (\<lambda>p. pid p = sid) (players (heap s1 a)) of
                       None \<Rightarrow> Inr (s1, [])
                     | Some leavingPlayer \<Rightarrow>
                         (let leavingWasDrawer =
                                (case indexMod (turnIndex (heap s1 a)) (players (heap s1 a)) of
                                   None \<Rightarrow> False
                                 | Some d \<Rightarrow> pid d = sid);
                              leavingName = name leavingPlayer;
                              s2 = updRoom a (\<lambda>r. r\<lparr> players :=
                                     updFirst (\<lambda>p. pid p = sid)
                                       (\<lambda>p. p\<lparr> connected := False,
                                               disconnectedAt := Some now \<rparr>) (players r) \<rparr>) s1;
                              connectedPlayers = filter connected (players (heap s2 a))
                          in if connectedPlayers = [] then
                               Inr (s2\<lparr> pending := pending s2 @ [DeleteDisconnected roomId] \<rparr>,
                                    [])
                             else
                               (let out1 = [(IoTo (rid (heap s2 a)),
                                             ChatMessage (rid (heap s2 a)) ''System''
                                               (leavingName
                                                @ '' disconnected (can rejoin within 30 seconds)'')
                                               True)]
                                in if length connectedPlayers < 2 then
                                     (let s3 = updRoom a (\<lambda>r. r\<lparr> phase := Lobby,
                                                                  word := None \<rparr>) s2
                                      in Inr (s3, out1 @ broadcastRoomState now (heap s3 a)
                                                       @ broadcastRoomsList s3))
                                   else if leavingWasDrawer \<and> phase (heap s2 a) = Drawing then
                                     (case endRound now a Timeout s2 of
                                        Inl e \<Rightarrow> Inl e
                                      | Inr (s3, out3) \<Rightarrow> Inr (s3, out1 @ out3))
                                   else Inr (s2, out1 @ broadcastRoomState now (heap s2 a)
                                                      @ broadcastRoomsList s2))))))"

section \<open>The server as a transition system\<close>

datatype event =
    Connect string
  | RoomsRequest string
  | RoomsSubscribe string
  | PlayerJoin string string string
  | PlayerLeave string string
  | ChatMsg string string string
  | GuessSubmit string string string
  | DrawStrokeEv string string "(int \<times> int) list"
  | RoundClearEv string string
  | RoundStartEv string string
  | RoomCloseEv string string
  | RoundSkipEv string string
  | GameRestartEv string string
  | Disconnect string
  | TimerTick string
  | DeferredFire nat

text \<open>
  One handler run to completion. \<open>now\<close> is the value of \<^verbatim>\<open>Date.now()\<close> during the
  handler and \<open>pick\<close> the random draw of \<^verbatim>\<open>pickWord\<close>. \<open>Inl\<close> is an exception that
  leaves the handler: nothing catches it, so the process ends there.
\<close>

fun step :: "int \<Rightarrow> nat \<Rightarrow> event \<Rightarrow> server \<Rightarrow> jserror + server \<times> emission list" where
  "step now pick (Connect sid) s = Inr (s, [(SocketEmit sid, RoomsList (getPublicRooms s))])"
| "step now pick (RoomsRequest sid) s =
     Inr (s, [(SocketEmit sid, RoomsList (getPublicRooms s))])"
| "step now pick (RoomsSubscribe sid) s =
     Inr (s, [(SocketEmit sid, RoomsList (getPublicRooms s))])"
| "step now pick (PlayerJoin sid roomId nm) s = Inr (playerJoin now pick sid roomId nm s)"
| "step now pick (PlayerLeave sid roomId) s = playerLeave now sid roomId s"
| "step now pick (ChatMsg sid roomId message) s = Inr (chatMessage sid roomId message s)"
| "step now pick (GuessSubmit sid roomId guess) s = guessSubmit now sid roomId guess s"
| "step now pick (DrawStrokeEv sid roomId points) s = Inr (drawStroke sid roomId points s)"
| "step now pick (RoundClearEv sid roomId) s = Inr (roundClear sid roomId s)"
| "step now pick (RoundStartEv sid roomId) s = Inr (roundStart now pick roomId s)"
| "step now pick (RoomCloseEv sid roomId) s = Inr (roomClose sid roomId s)"
| "step now pick (RoundSkipEv sid roomId) s = roundSkip now sid roomId s"
| "step now pick (GameRestartEv sid roomId) s = Inr (gameRestart now pick roomId s)"
| "step now pick (Disconnect sid) s = disconnect now sid s"
| "step now pick (TimerTick roomId) s = timerTick now pick roomId s"
| "step now pick (DeferredFire n) s = deferredFire n s"

text \<open>A run: the events in order, each with its clock reading and random draw.\<close>

fun run :: "(int \<times> nat \<times> event) list \<Rightarrow> server \<Rightarrow> jserror + server" where
  "run [] s = Inr s"
| "run ((now, pick, e) # es) s =
     (case step now pick e s of Inl err \<Rightarrow> Inl err | Inr (s', out) \<Rightarrow> run es s')"

section \<open>Notions used in the properties\<close>

text \<open>
  \<open>tp\<close> is the first player of \<open>ps\<close> with the highest score: nobody scores more, and
  everybody before \<open>tp\<close> scores less.
\<close>

definition isFirstTop :: "player list \<Rightarrow> player \<Rightarrow> bool" where
  "isFirstTop ps tp =
     (\<exists>i < length ps. ps ! i = tp \<and> (\<forall>j < length ps. score (ps ! j) \<le> score tp)
        \<and> (\<forall>j < i. score (ps ! j) < score tp))"

text \<open>
  The end-of-game evaluation in the order the specification gives it (section 4.6): the
  win threshold first, then the round cap with a tie reported as no winner, else the game
  continues. Written to be compared with \<open>checkGameEnd\<close>.
\<close>

definition checkGameEnd_thresholdFirst :: "room \<Rightarrow> jserror + gameEnd" where
  "checkGameEnd_thresholdFirst room =
     (case find (\<lambda>p. score p \<ge> WINNING_SCORE) (players room) of
        Some w \<Rightarrow> Inr \<lparr> ended = True, winner = Some w, reasonText = Some (earlyReason w) \<rparr>
      | None \<Rightarrow>
          if round room \<ge> MAX_ROUNDS then
            (case reduce1 (\<lambda>prev curr. if score curr > score prev then curr else prev)
                    (players room) of
               Inl e \<Rightarrow> Inl e
             | Inr topPlayer \<Rightarrow>
                 if length (filter (\<lambda>p. score p = score topPlayer) (players room)) > 1
                 then Inr \<lparr> ended = True, winner = None,
                           reasonText = Some (tieReason topPlayer) \<rparr>
                 else Inr \<lparr> ended = True, winner = Some topPlayer,
                           reasonText = Some (capReason topPlayer) \<rparr>)
          else Inr \<lparr> ended = False, winner = None, reasonText = None \<rparr>)"

subsection \<open>Concrete rooms and runs\<close>

definition mkPlayer :: "string \<Rightarrow> string \<Rightarrow> nat \<Rightarrow> nat \<Rightarrow> player" where
  "mkPlayer i n sc ob =
     \<lparr> pid = i, name = n, score = sc, connected = True, disconnectedAt = None, oid = ob \<rparr>"

text \<open>Round 6, Al at 10 points and Bob at 12.\<close>

definition room_cap :: room where
  "room_cap = (newRoom ''r1'')
     \<lparr> players := [mkPlayer ''A'' ''Al'' 10 0, mkPlayer ''B'' ''Bob'' 12 1],
       round := 6, phase := Drawing, word := Some ''Cat'' \<rparr>"

text \<open>Round 3, Al has just reached 10 points.\<close>

definition room_early :: room where
  "room_early = (newRoom ''r1'')
     \<lparr> players := [mkPlayer ''A'' ''Al'' 10 0, mkPlayer ''B'' ''Bob'' 4 1],
       round := 3, phase := Drawing, word := Some ''Cat'' \<rparr>"

text \<open>
  Al and Bob join room r1 and nobody ever guesses: five rounds time out (60 s each, 3 s
  of intermission, the word delivered 50 ms after each start), and round 6 is being drawn.
\<close>

definition round6_trace :: "(int \<times> nat \<times> event) list" where
  "round6_trace =
     [(1000, 0, PlayerJoin ''A'' ''r1'' ''Al''),
      (2000, 0, PlayerJoin ''B'' ''r1'' ''Bob''), (2050, 0, DeferredFire 0),
      (62000, 0, TimerTick ''r1''),
      (65000, 1, TimerTick ''r1''), (65050, 0, DeferredFire 0),
      (125000, 0, TimerTick ''r1''),
      (128000, 2, TimerTick ''r1''), (128050, 0, DeferredFire 0),
      (188000, 0, TimerTick ''r1''),
      (191000, 3, TimerTick ''r1''), (191050, 0, DeferredFire 0),
      (251000, 0, TimerTick ''r1''),
      (254000, 4, TimerTick ''r1''), (254050, 0, DeferredFire 0),
      (314000, 0, TimerTick ''r1''),
      (317000, 5, TimerTick ''r1''), (317050, 0, DeferredFire 0)]"

definition round6_state :: server where
  "round6_state = projr (run round6_trace init)"

text \<open>
  The same run, after which both players send \<^verbatim>\<open>player:leave\<close> during round 6 and the
  round timer, which nothing has cancelled, expires at its deadline.
\<close>

definition abandoned_trace :: "(int \<times> nat \<times> event) list" where
  "abandoned_trace = round6_trace @
     [(320000, 0, PlayerLeave ''A'' ''r1''),
      (321000, 0, PlayerLeave ''B'' ''r1''),
      (377000, 0, TimerTick ''r1'')]"

definition abandoned_state :: server where
  "abandoned_state = projr (run (butlast abandoned_trace) init)"

text \<open>
  Al, Bob and Cy join r1; Al, the first drawer, loses the connection during round 1; the
  intermission elapses and round 2 is being drawn.
\<close>

definition drawer_split_trace :: "(int \<times> nat \<times> event) list" where
  "drawer_split_trace =
     [(1000, 0, PlayerJoin ''A'' ''r1'' ''Al''),
      (2000, 0, PlayerJoin ''B'' ''r1'' ''Bob''), (2050, 0, DeferredFire 0),
      (3000, 0, PlayerJoin ''C'' ''r1'' ''Cy''),
      (10000, 0, Disconnect ''A''),
      (13000, 1, TimerTick ''r1''), (13050, 0, DeferredFire 0)]"

definition drawer_split_state :: server where
  "drawer_split_state = projr (run drawer_split_trace init)"

text \<open>Al and Bob join r1, Al draws "Cat" and Bob guesses it.\<close>

definition solved_trace :: "(int \<times> nat \<times> event) list" where
  "solved_trace =
     [(1000, 0, PlayerJoin ''A'' ''r1'' ''Al''),
      (2000, 0, PlayerJoin ''B'' ''r1'' ''Bob''), (2050, 0, DeferredFire 0),
      (9000, 0, GuessSubmit ''B'' ''r1'' '' CAT  '')]"

definition solved_state :: server where
  "solved_state = projr (run solved_trace init)"

text \<open>Al and Bob have joined r1, round 1 is being drawn by Al, the word is "Cat".\<close>

definition drawing_trace :: "(int \<times> nat \<times> event) list" where
  "drawing_trace =
     [(1000, 0, PlayerJoin ''A'' ''r1'' ''Al''),
      (2000, 0, PlayerJoin ''B'' ''r1'' ''Bob''), (2050, 0, DeferredFire 0)]"

definition drawing_state :: server where
  "drawing_state = projr (run drawing_trace init)"

subsection \<open>The guessed set\<close>

text \<open>
  What every room satisfies between two handlers: at most one recorded guess, and none
  while the round is being drawn.
\<close>

definition roomOK :: "room \<Rightarrow> bool" where
  "roomOK r = (finite (guessedThisRound r) \<and> card (guessedThisRound r) \<le> 1
               \<and> (phase r = Drawing \<longrightarrow> guessedThisRound r = {}))"

text \<open>
  What a handler other than an accepted guess may do to a room: clear the guessed set, or
  leave it as it is without starting a round.
\<close>

definition roomStepOK :: "room \<Rightarrow> room \<Rightarrow> bool" where
  "roomStepOK r r' =
     (guessedThisRound r' = {}
      \<or> (guessedThisRound r' = guessedThisRound r \<and> (phase r' = Drawing \<longrightarrow> phase r = Drawing)))"

definition stepOK :: "server \<Rightarrow> server \<Rightarrow> bool" where
  "stepOK s s' = (\<forall>b. roomStepOK (heap s b) (heap s' b))"

definition roomsOK :: "server \<Rightarrow> bool" where
  "roomsOK s = (\<forall>b. roomOK (heap s b))"

text \<open>Bob's correct guess, handled in the state \<open>drawing_state\<close>.\<close>

definition guess_step :: "jserror + server \<times> emission list" where
  "guess_step = step 9000 0 (GuessSubmit ''B'' ''r1'' '' CAT  '') drawing_state"

subsection \<open>Where the secret word goes\<close>

text \<open>The one payload with a field for the word is \<^verbatim>\<open>round:word\<close>.\<close>

definition isWordPayload :: "payload \<Rightarrow> bool" where
  "isWordPayload pl = (case pl of RoundWord w \<Rightarrow> True | _ \<Rightarrow> False)"

definition noWord :: "emission list \<Rightarrow> bool" where
  "noWord out = (\<forall>em \<in> set out. \<not> isWordPayload (snd em))"

subsection \<open>The room registry\<close>


definition shapeStep :: "server \<Rightarrow> server \<Rightarrow> bool" where
  "shapeStep s s' =
     (nextAddr s \<le> nextAddr s'
      \<and> (\<forall>b. b < nextAddr s \<longrightarrow> rid (heap s' b) = rid (heap s b))
      \<and> (\<forall>k b. map_of (rooms s') k = Some b \<longrightarrow>
             map_of (rooms s) k = Some b
             \<or> (nextAddr s \<le> b \<and> b < nextAddr s' \<and> rid (heap s' b) = k)))"

text \<open>
  Al alone in r1 (phase \<open>lobby\<close>). From there: Al sends \<^verbatim>\<open>player:leave\<close>
  (\<open>left_state\<close>), and Bob joins r1 half a second later (\<open>left_rejoined_state\<close>); or Al
  sends \<^verbatim>\<open>player:join\<close> for r2 (\<open>moved_state\<close>), and Bob joins r1 half a second later
  (\<open>rejoined_state\<close>).
\<close>

definition lobby_trace :: "(int \<times> nat \<times> event) list" where
  "lobby_trace = [(1000, 0, PlayerJoin ''A'' ''r1'' ''Al'')]"

definition lobby_state :: server where
  "lobby_state = projr (run lobby_trace init)"

definition left_state :: server where
  "left_state = projr (run (lobby_trace @ [(5000, 0, PlayerLeave ''A'' ''r1'')]) init)"

definition left_rejoined_state :: server where
  "left_rejoined_state =
     projr (run (lobby_trace @ [(5000, 0, PlayerLeave ''A'' ''r1''),
                                (5500, 0, PlayerJoin ''B'' ''r1'' ''Bob'')]) init)"

definition moved_state :: server where
  "moved_state = projr (run (lobby_trace @ [(5000, 0, PlayerJoin ''A'' ''r2'' ''Al'')]) init)"

definition rejoined_state :: server where
  "rejoined_state =
     projr (run (lobby_trace @ [(5000, 0, PlayerJoin ''A'' ''r2'' ''Al''),
                                (5500, 0, PlayerJoin ''B'' ''r1'' ''Bob'')]) init)"





subsection \<open>Runs in which the awards and the word go astray\<close>

text \<open>
  Al, Bob and Cy are in r1 during round 1 (Al draws). Bob loses the connection; within the
  30 s grace period the client of Al sends \<^verbatim>\<open>player:join\<close> for r1 again under the name
  "Bob" (the path the source calls a name change), which the reconnection branch takes as
  Bob coming back: Bob's entry gets the socket id of Al. Round 1 times out and round 2
  starts with the second entry, Bob, as drawer.
\<close>

definition dup_trace :: "(int \<times> nat \<times> event) list" where
  "dup_trace =
     [(1000, 0, PlayerJoin ''A'' ''r1'' ''Al''),
      (2000, 0, PlayerJoin ''B'' ''r1'' ''Bob''), (2050, 0, DeferredFire 0),
      (3000, 0, PlayerJoin ''C'' ''r1'' ''Cy''),
      (5000, 0, Disconnect ''B''),
      (6000, 0, PlayerJoin ''A'' ''r1'' ''Bob''),
      (62000, 0, TimerTick ''r1''),
      (65000, 1, TimerTick ''r1''), (65050, 0, DeferredFire 0)]"

definition dup_state :: server where
  "dup_state = projr (run dup_trace init)"

definition dup_guess :: "jserror + server \<times> emission list" where
  "dup_guess = guessSubmit 70000 ''C'' ''r1'' ''house'' dup_state"

text \<open>
  Al and Bob join r1, which starts round 1 with Al as drawer and queues the delivery of
  the word 50 ms later; Cy joins; Al leaves, which ends the round; Cy sends
  \<^verbatim>\<open>round:start\<close>, which starts a round with Bob as drawer and the word "House". All of
  this happens before the first delivery fires.
\<close>

definition stale_trace :: "(int \<times> nat \<times> event) list" where
  "stale_trace =
     [(1000, 0, PlayerJoin ''A'' ''r1'' ''Al''),
      (2000, 0, PlayerJoin ''B'' ''r1'' ''Bob''),
      (2005, 0, PlayerJoin ''C'' ''r1'' ''Cy''),
      (2010, 0, PlayerLeave ''A'' ''r1''),
      (2020, 1, RoundStartEv ''C'' ''r1'')]"

definition stale_state :: server where
  "stale_state = projr (run stale_trace init)"

definition stale_delivery :: "jserror + server \<times> emission list" where
  "stale_delivery = step 2050 0 (DeferredFire 0) stale_state"

text \<open>Al then comes back to r1 and submits the word received.\<close>

definition stale_guess_trace :: "(int \<times> nat \<times> event) list" where
  "stale_guess_trace =
     stale_trace @
     [(2050, 0, DeferredFire 0), (2070, 0, DeferredFire 0),
      (4000, 0, PlayerJoin ''A'' ''r1'' ''Al''),
      (5000, 0, GuessSubmit ''A'' ''r1'' ''house'')]"

definition stale_guess_state :: server where
  "stale_guess_state = projr (run stale_guess_trace init)"

text \<open>In \<open>drawer_split_state\<close>: Bob skips; or Cy submits the word.\<close>

definition split_skip :: "jserror + server \<times> emission list" where
  "split_skip = roundSkip 14000 ''B'' ''r1'' drawer_split_state"

definition split_guess :: "jserror + server \<times> emission list" where
  "split_guess = guessSubmit 14000 ''C'' ''r1'' '' House'' drawer_split_state"

text \<open>The step of \<open>drawer_split_trace\<close> in which the intermission ends and round 2 starts.\<close>

definition split_round_start :: "jserror + server \<times> emission list" where
  "split_round_start
     = step 13000 1 (TimerTick ''r1'') (projr (run (take 5 drawer_split_trace) init))"

section \<open>Properties\<close>

subsection \<open>End-of-game evaluation\<close>

lemma foldl_firstTop:
  "isFirstTop (x # xs)
     (foldl (\<lambda>prev curr. if score curr > score prev then curr else prev) x xs)"
proof (induction xs rule: rev_induct)
  case Nil
  show ?case by (simp add: isFirstTop_def)
next
  case (snoc y ys)
  let ?f = "\<lambda>prev curr. if score curr > score prev then curr else (prev::player)"
  let ?t = "foldl ?f x ys"
  from snoc obtain i where i: "i < length (x # ys)" "(x # ys) ! i = ?t"
    "\<forall>j < length (x # ys). score ((x # ys) ! j) \<le> score ?t"
    "\<forall>j < i. score ((x # ys) ! j) < score ?t"
    unfolding isFirstTop_def by blast
  have old: "\<And>j. j < length (x # ys) \<Longrightarrow> (x # ys @ [y]) ! j = (x # ys) ! j"
    by (metis append_Cons nth_append)
  have new: "(x # ys @ [y]) ! length (x # ys) = y"
    by (metis append_Cons nth_append_length)
  show ?case
  proof (cases "score y > score ?t")
    case True
    have "\<forall>j < length (x # ys @ [y]). score ((x # ys @ [y]) ! j) \<le> score y"
    proof (intro allI impI)
      fix j assume "j < length (x # ys @ [y])"
      then consider "j < length (x # ys)" | "j = length (x # ys)" by fastforce
      then show "score ((x # ys @ [y]) ! j) \<le> score y"
      proof cases
        case 1
        with i(3) old True show ?thesis by fastforce
      next
        case 2
        with new show ?thesis by simp
      qed
    qed
    moreover have "\<forall>j < length (x # ys). score ((x # ys @ [y]) ! j) < score y"
      using i(3) old True by fastforce
    ultimately show ?thesis
      using True new unfolding isFirstTop_def
      by (intro exI[of _ "length (x # ys)"]) simp
  next
    case False
    have "\<forall>j < length (x # ys @ [y]). score ((x # ys @ [y]) ! j) \<le> score ?t"
    proof (intro allI impI)
      fix j assume "j < length (x # ys @ [y])"
      then consider "j < length (x # ys)" | "j = length (x # ys)" by fastforce
      then show "score ((x # ys @ [y]) ! j) \<le> score ?t"
      proof cases
        case 1
        with i(3) old show ?thesis by simp
      next
        case 2
        with new False show ?thesis by simp
      qed
    qed
    moreover have "\<forall>j < i. score ((x # ys @ [y]) ! j) < score ?t"
      using i(1,4) old by simp
    moreover have "(x # ys @ [y]) ! i = ?t" using i(1,2) old by simp
    ultimately show ?thesis
      using False i(1) unfolding isFirstTop_def
      by (intro exI[of _ i]) simp
  qed
qed

lemma isFirstTop_unique:
  assumes "isFirstTop ps t1" and "isFirstTop ps t2"
  shows "t1 = t2"
proof -
  from assms(1) obtain i where i: "i < length ps" "ps ! i = t1"
    "\<forall>j < length ps. score (ps ! j) \<le> score t1" "\<forall>j < i. score (ps ! j) < score t1"
    unfolding isFirstTop_def by blast
  from assms(2) obtain k where k: "k < length ps" "ps ! k = t2"
    "\<forall>j < length ps. score (ps ! j) \<le> score t2" "\<forall>j < k. score (ps ! j) < score t2"
    unfolding isFirstTop_def by blast
  have "\<not> i < k"
  proof
    assume "i < k"
    with k(4) i(2) have "score t1 < score t2" by auto
    moreover from i(3) k(1,2) have "score t2 \<le> score t1" by auto
    ultimately show False by simp
  qed
  moreover have "\<not> k < i"
  proof
    assume "k < i"
    with i(4) k(2) have "score t2 < score t1" by auto
    moreover from k(3) i(1,2) have "score t1 \<le> score t2" by auto
    ultimately show False by simp
  qed
  ultimately have "i = k" by simp
  with i(2) k(2) show ?thesis by simp
qed

lemma checkGameEnd_below_cap:
  assumes "round room < MAX_ROUNDS"
      and "find (\<lambda>p. score p \<ge> WINNING_SCORE) (players room) = Some w"
  shows "checkGameEnd room
           = Inr \<lparr> ended = True, winner = Some w, reasonText = Some (earlyReason w) \<rparr>"
  using assms by (simp add: checkGameEnd_def)

lemma checkGameEnd_at_cap:
  assumes "round room \<ge> MAX_ROUNDS" and "players room \<noteq> []"
  shows "\<exists>tp. isFirstTop (players room) tp \<and>
           checkGameEnd room
             = Inr \<lparr> ended = True, winner = Some tp,
                     reasonText =
                       Some (if length (filter (\<lambda>p. score p = score tp) (players room)) > 1
                             then tieReason tp else capReason tp) \<rparr>"
proof -
  from assms(2) obtain x xs where ps: "players room = x # xs"
    by (cases "players room") auto
  let ?t = "foldl (\<lambda>prev curr. if score curr > score prev then curr else prev) x xs"
  have "isFirstTop (players room) ?t" unfolding ps by (rule foldl_firstTop)
  moreover have "checkGameEnd room
             = Inr \<lparr> ended = True, winner = Some ?t,
                     reasonText =
                       Some (if length (filter (\<lambda>p. score p = score ?t) (players room)) > 1
                             then tieReason ?t else capReason ?t) \<rparr>"
    using assms(1) by (simp add: checkGameEnd_def reduce1_def ps Let_def)
  ultimately show ?thesis by blast
qed

text \<open>
  C1, as the specification states it, fails: with the round counter at the cap the code
  evaluates the cap rule first. In round 6 with Al at 10 points and Bob at 12, Al is at
  the win threshold, yet the winner is Bob, announced as the winner after 6 rounds; the
  evaluation in the specification's order names Al as the early winner.
\<close>

theorem C1_threshold_priority_counterexample:
  "mkPlayer ''A'' ''Al'' 10 0 \<in> set (players room_cap)
   \<and> score (mkPlayer ''A'' ''Al'' 10 0) \<ge> WINNING_SCORE
   \<and> round room_cap \<ge> MAX_ROUNDS
   \<and> checkGameEnd room_cap
        = Inr \<lparr> ended = True, winner = Some (mkPlayer ''B'' ''Bob'' 12 1),
                reasonText = Some ''Game ended after 6 rounds. Bob wins with 12 points!'' \<rparr>
   \<and> checkGameEnd_thresholdFirst room_cap
        = Inr \<lparr> ended = True, winner = Some (mkPlayer ''A'' ''Al'' 10 0),
                reasonText = Some ''Al reached 10 points and wins the game early!'' \<rparr>
   \<and> checkGameEnd room_cap \<noteq> checkGameEnd_thresholdFirst room_cap"
  by code_simp

text \<open>
  C1 (amended): the round cap is evaluated first. While the round counter is below the
  cap (6), a room in which some player's score is at least the win threshold (10) ends
  the game at once with the first such player in turn order as winner, so a player
  reaching 10 points in round 3 wins without waiting for round 6. Once the round counter
  has reached the cap, the game ends with the first top-scoring player as winner, whether
  or not anybody is at the threshold.
\<close>

theorem C1_cap_before_threshold:
  "(round room < MAX_ROUNDS \<longrightarrow>
      find (\<lambda>p. score p \<ge> WINNING_SCORE) (players room) = Some w \<longrightarrow>
      checkGameEnd room
        = Inr \<lparr> ended = True, winner = Some w, reasonText = Some (earlyReason w) \<rparr>)
   \<and> (round room \<ge> MAX_ROUNDS \<longrightarrow> players room \<noteq> [] \<longrightarrow>
        (\<exists>tp g. isFirstTop (players room) tp \<and> checkGameEnd room = Inr g
                \<and> ended g \<and> winner g = Some tp))"
proof (intro conjI impI)
  assume "round room < MAX_ROUNDS"
     and "find (\<lambda>p. score p \<ge> WINNING_SCORE) (players room) = Some w"
  then show "checkGameEnd room
        = Inr \<lparr> ended = True, winner = Some w, reasonText = Some (earlyReason w) \<rparr>"
    by (rule checkGameEnd_below_cap)
next
  assume "round room \<ge> MAX_ROUNDS" and "players room \<noteq> []"
  from checkGameEnd_at_cap[OF this] obtain tp where
    "isFirstTop (players room) tp"
    "checkGameEnd room
       = Inr \<lparr> ended = True, winner = Some tp,
               reasonText =
                 Some (if length (filter (\<lambda>p. score p = score tp) (players room)) > 1
                       then tieReason tp else capReason tp) \<rparr>" by blast
  then show "\<exists>tp g. isFirstTop (players room) tp \<and> checkGameEnd room = Inr g
                \<and> ended g \<and> winner g = Some tp"
    by (intro exI[of _ tp]) simp
qed

theorem C1_cap_before_threshold_witness:
  "round room_early < MAX_ROUNDS
   \<and> find (\<lambda>p. score p \<ge> WINNING_SCORE) (players room_early)
       = Some (mkPlayer ''A'' ''Al'' 10 0)
   \<and> checkGameEnd room_early
       = Inr \<lparr> ended = True, winner = Some (mkPlayer ''A'' ''Al'' 10 0),
               reasonText = Some (earlyReason (mkPlayer ''A'' ''Al'' 10 0)) \<rparr>
   \<and> round room_cap \<ge> MAX_ROUNDS \<and> players room_cap \<noteq> []
   \<and> (\<exists>tp g. isFirstTop (players room_cap) tp \<and> checkGameEnd room_cap = Inr g
              \<and> ended g \<and> winner g = Some tp)"
proof -
  have 1: "round room_early < MAX_ROUNDS" by code_simp
  have 2: "find (\<lambda>p. score p \<ge> WINNING_SCORE) (players room_early)
             = Some (mkPlayer ''A'' ''Al'' 10 0)" by code_simp
  have 3: "round room_cap \<ge> MAX_ROUNDS" by code_simp
  have 4: "players room_cap \<noteq> []" by code_simp
  from C1_cap_before_threshold[of room_early "mkPlayer ''A'' ''Al'' 10 0"]
       C1_cap_before_threshold[of room_cap] 1 2 3 4
  show ?thesis by blast
qed

subsection \<open>Ending a round\<close>

lemma heap_clearTimer [simp]: "heap (clearTimer k s) = heap s"
  by (simp add: clearTimer_def)

lemma heap_updRoom [simp]: "heap (updRoom a f s) = (heap s)(a := f (heap s a))"
  by (simp add: updRoom_def)

lemma checkGameEnd_cong:
  "players r' = players r \<Longrightarrow> round r' = round r \<Longrightarrow> checkGameEnd r' = checkGameEnd r"
  unfolding checkGameEnd_def Let_def by (simp split: sum.splits)

lemma checkGameEnd_phase [simp]: "checkGameEnd (r\<lparr> phase := p \<rparr>) = checkGameEnd r"
  by (rule checkGameEnd_cong) simp_all

lemma endRound_gameover:
  assumes "checkGameEnd (heap s a) = Inr g" and "ended g"
  shows "endRound now a rsn s =
           Inr (updRoom a (\<lambda>r. r\<lparr> phase := Gameover \<rparr>)
                  (clearTimer (rid (heap s a))
                     (updRoom a (\<lambda>r. r\<lparr> phase := Intermission \<rparr>) s)),
                [(IoTo (rid (heap s a)), RoundEnded (rid (heap s a)) rsn),
                 (IoTo (rid (heap s a)),
                  GameOver (gameOverPayload ((heap s a)\<lparr> phase := Gameover \<rparr>) g))]
                @ broadcastRoomState now ((heap s a)\<lparr> phase := Gameover \<rparr>)
                @ broadcastRoomsList
                    (updRoom a (\<lambda>r. r\<lparr> phase := Gameover \<rparr>)
                      (clearTimer (rid (heap s a))
                         (updRoom a (\<lambda>r. r\<lparr> phase := Intermission \<rparr>) s))))"
  unfolding endRound_def Let_def
  using assms by simp

lemma finalScores_sorted:
  "sorted_wrt (\<lambda>x y. info_score x \<ge> info_score y) (finalScoresOf room)"
proof -
  have "sorted (map (\<lambda>i. - int (info_score i)) (finalScoresOf room))"
    unfolding finalScoresOf_def by (rule sorted_sort_key)
  then show ?thesis by (simp add: sorted_map)
qed

lemma finalScores_mset: "mset (finalScoresOf room) = mset (map toInfo (players room))"
  by (simp add: finalScoresOf_def)

lemma round6_players:
  "players (heap round6_state 0) = [mkPlayer ''A'' ''Al'' 0 0, mkPlayer ''B'' ''Bob'' 0 1]"
  by code_simp

text \<open>
  C2, as the specification states it, fails on the winner field. After five rounds
  without a guess Al and Bob are tied at 0 points in round 6; when the round timer
  expires the room enters \<open>gameover\<close> and the \<^verbatim>\<open>game:over\<close> event carries Al, one
  specific player, as \<^verbatim>\<open>winner\<close>. Only the reason text speaks of a tie.
\<close>

theorem C2_tie_winner_counterexample:
  "map_sum id snd (timerTick 377000 0 ''r1'' round6_state)
     = Inr [(IoTo ''r1'',
             RoomState \<lparr> rs_roomId = ''r1'',
                         rs_players = [PInfo ''A'' ''Al'' 0, PInfo ''B'' ''Bob'' 0],
                         rs_round = 6, rs_turnPlayerId = Some ''B'', rs_drawerId = Some ''B'',
                         rs_phase = Drawing, rs_timeLeft = None \<rparr>),
            (IoTo ''r1'', RoundEnded ''r1'' Timeout),
            (IoTo ''r1'',
             GameOver \<lparr> go_roomId = ''r1'', go_winner = Some (PInfo ''A'' ''Al'' 0),
                        go_reason = Some ''Game ended after 6 rounds. It's a tie at 0 points!'',
                        go_finalScores = [PInfo ''A'' ''Al'' 0, PInfo ''B'' ''Bob'' 0] \<rparr>),
            (IoTo ''r1'',
             RoomState \<lparr> rs_roomId = ''r1'',
                         rs_players = [PInfo ''A'' ''Al'' 0, PInfo ''B'' ''Bob'' 0],
                         rs_round = 6, rs_turnPlayerId = Some ''B'', rs_drawerId = Some ''B'',
                         rs_phase = Gameover, rs_timeLeft = None \<rparr>),
            (IoAll, RoomsList [(''r1'', 2, 8)]),
            (IoTo ''__rooms__'', RoomsList [(''r1'', 2, 8)])]"
  by code_simp

text \<open>
  C2 (amended): for every room whose round counter has reached the round cap (6) with
  two or more players tied at the top score, ending the round enters phase \<open>gameover\<close>
  and emits a \<^verbatim>\<open>game:over\<close> event whose reason text reports the tie at the top score,
  whose winner field names the first top-scoring player in turn order, and whose
  finalScores list holds every player, sorted descending by score.
\<close>

theorem C2_tie_reported_in_reason:
  assumes "round (heap s a) \<ge> MAX_ROUNDS"
      and "isFirstTop (players (heap s a)) tp"
      and "length (filter (\<lambda>p. score p = score tp) (players (heap s a))) > 1"
  shows "\<exists>s' out g. endRound now a rsn s = Inr (s', out)
           \<and> phase (heap s' a) = Gameover
           \<and> (IoTo (rid (heap s a)), GameOver g) \<in> set out
           \<and> go_winner g = Some (toInfo tp)
           \<and> go_reason g = Some (tieReason tp)
           \<and> sorted_wrt (\<lambda>x y. info_score x \<ge> info_score y) (go_finalScores g)
           \<and> mset (go_finalScores g) = mset (map toInfo (players (heap s a)))"
proof -
  from assms(2) have ne: "players (heap s a) \<noteq> []" by (auto simp: isFirstTop_def)
  from checkGameEnd_at_cap[OF assms(1) ne] obtain t' where
    t': "isFirstTop (players (heap s a)) t'"
    "checkGameEnd (heap s a) = Inr \<lparr> ended = True, winner = Some t',
        reasonText =
          Some (if length (filter (\<lambda>p. score p = score t') (players (heap s a))) > 1
                then tieReason t' else capReason t') \<rparr>" by blast
  have eq: "t' = tp" using t'(1) assms(2) by (rule isFirstTop_unique)
  let ?g = "\<lparr> ended = True, winner = Some tp, reasonText = Some (tieReason tp) \<rparr>"
  let ?p = "gameOverPayload ((heap s a)\<lparr> phase := Gameover \<rparr>) ?g"
  let ?res = "projr (endRound now a rsn s)"
  have cg: "checkGameEnd (heap s a) = Inr ?g" using t'(2) assms(3) unfolding eq by simp
  have en: "ended ?g" by simp
  note er = endRound_gameover[OF cg en, of now rsn]
  have 0: "endRound now a rsn s = Inr (fst ?res, snd ?res)" unfolding er by simp
  have 1: "phase (heap (fst ?res) a) = Gameover" unfolding er by simp
  have 2: "(IoTo (rid (heap s a)), GameOver ?p) \<in> set (snd ?res)" unfolding er by simp
  have 3: "go_winner ?p = Some (toInfo tp)" by (simp add: gameOverPayload_def)
  have 4: "go_reason ?p = Some (tieReason tp)" by (simp add: gameOverPayload_def)
  have 5: "sorted_wrt (\<lambda>x y. info_score x \<ge> info_score y) (go_finalScores ?p)"
    by (simp add: gameOverPayload_def finalScores_sorted)
  have 6: "mset (go_finalScores ?p) = mset (map toInfo (players (heap s a)))"
    by (simp add: gameOverPayload_def finalScores_mset)
  from 0 1 2 3 4 5 6 show ?thesis by blast
qed

theorem C2_tie_reported_in_reason_witness:
  "round (heap round6_state 0) \<ge> MAX_ROUNDS
   \<and> isFirstTop (players (heap round6_state 0)) (mkPlayer ''A'' ''Al'' 0 0)
   \<and> length (filter (\<lambda>p. score p = score (mkPlayer ''A'' ''Al'' 0 0))
               (players (heap round6_state 0))) > 1
   \<and> (\<exists>s' out g. endRound 377000 0 Timeout round6_state = Inr (s', out)
           \<and> phase (heap s' 0) = Gameover
           \<and> (IoTo (rid (heap round6_state 0)), GameOver g) \<in> set out
           \<and> go_winner g = Some (toInfo (mkPlayer ''A'' ''Al'' 0 0))
           \<and> go_reason g = Some (tieReason (mkPlayer ''A'' ''Al'' 0 0))
           \<and> sorted_wrt (\<lambda>x y. info_score x \<ge> info_score y) (go_finalScores g)
           \<and> mset (go_finalScores g) = mset (map toInfo (players (heap round6_state 0))))"
proof -
  have 1: "round (heap round6_state 0) \<ge> MAX_ROUNDS" by code_simp
  have 2: "isFirstTop (players (heap round6_state 0)) (mkPlayer ''A'' ''Al'' 0 0)"
    unfolding round6_players isFirstTop_def
    by (intro exI[of _ 0]) (simp add: mkPlayer_def nth_Cons')
  have 3: "length (filter (\<lambda>p. score p = score (mkPlayer ''A'' ''Al'' 0 0))
               (players (heap round6_state 0))) > 1" by code_simp
  from C2_tie_reported_in_reason[OF 1 2 3, of 377000 Timeout] 1 2 3
  show ?thesis by blast
qed

text \<open>
  C8: the end-of-game evaluation fails on a room without players once the round counter
  has reached the cap, and such a call is reachable. In \<open>abandoned_trace\<close> both players
  leave r1 during round 6: the room is deleted, its player list is empty, and its round
  timer is still registered. When the timer expires, \<^verbatim>\<open>endRound\<close> calls
  \<^verbatim>\<open>checkGameEnd\<close>, whose \<^verbatim>\<open>reduce\<close> throws a TypeError on the empty list; the error
  leaves the timer callback uncaught.
\<close>

theorem C8_checkGameEnd_throws_on_empty_room:
  "isl (checkGameEnd ((newRoom ''r1'')\<lparr> round := 6 \<rparr>))
   \<and> projl (checkGameEnd ((newRoom ''r1'')\<lparr> round := 6 \<rparr>)) = TypeError
   \<and> \<not> isl (run (butlast abandoned_trace) init)
   \<and> rooms abandoned_state = []
   \<and> roomTimers abandoned_state ''r1'' = Some (0, RoundTimeout)
   \<and> players (heap abandoned_state 0) = []
   \<and> round (heap abandoned_state 0) = 6
   \<and> isl (timerTick 377000 0 ''r1'' abandoned_state)
   \<and> isl (run abandoned_trace init)
   \<and> projl (run abandoned_trace init) = TypeError"
  by code_simp

subsection \<open>Guesses\<close>

text \<open>
  C6: once a correct guess is recorded for the round (\<open>guessedThisRound\<close> is not empty),
  a further \<^verbatim>\<open>guess:submit\<close> for that room, correct or not and from anybody, leaves the
  whole server state as it is (no score changes, nothing is added to
  \<open>guessedThisRound\<close>) and emits nothing (no award, no round end).
\<close>

theorem C6_second_guess_is_noop:
  assumes "map_of (rooms s) (trim roomId) = Some a"
      and "guessedThisRound (heap s a) \<noteq> {}"
  shows "guessSubmit now sid roomId guess s = Inr (s, [])"
  using assms unfolding guessSubmit_def Let_def
  by (simp split: option.splits)

theorem C6_second_guess_is_noop_witness:
  "map_of (rooms solved_state) (trim ''r1'') = Some 0
   \<and> guessedThisRound (heap solved_state 0) \<noteq> {}
   \<and> guessSubmit 9500 ''B'' ''r1'' ''cat'' solved_state = Inr (solved_state, [])
   \<and> guessSubmit 9600 ''A'' ''r1'' ''dog'' solved_state = Inr (solved_state, [])"
proof -
  have 1: "map_of (rooms solved_state) (trim ''r1'') = Some 0" by code_simp
  have 2: "guessedThisRound (heap solved_state 0) \<noteq> {}" by code_simp
  from C6_second_guess_is_noop[OF 1 2, of 9500 "''B''" "''cat''"]
       C6_second_guess_is_noop[OF 1 2, of 9600 "''A''" "''dog''"] 1 2
  show ?thesis by blast
qed

subsection \<open>Frames of the state functions\<close>

lemma startTimer_fields [simp]:
  "heap (startTimer now a d k s) = (heap s)(a := (heap s a)\<lparr> roundEndAt := Some (now + d) \<rparr>)"
  "rooms (startTimer now a d k s) = rooms s"
  "pending (startTimer now a d k s) = pending s"
  "socketToRoom (startTimer now a d k s) = socketToRoom s"
  "nextAddr (startTimer now a d k s) = nextAddr s"
  "nextOid (startTimer now a d k s) = nextOid s"
  "roomTimers (startTimer now a d k s) = (roomTimers s)(rid (heap s a) \<mapsto> (a, k))"
  by (simp_all add: startTimer_def Let_def clearTimer_def updRoom_def)

lemma updRoom_fields [simp]:
  "rooms (updRoom a f s) = rooms s"
  "pending (updRoom a f s) = pending s"
  "socketToRoom (updRoom a f s) = socketToRoom s"
  "nextAddr (updRoom a f s) = nextAddr s"
  "nextOid (updRoom a f s) = nextOid s"
  "roomTimers (updRoom a f s) = roomTimers s"
  by (simp_all add: updRoom_def)

lemma clearTimer_fields [simp]:
  "rooms (clearTimer k s) = rooms s"
  "pending (clearTimer k s) = pending s"
  "socketToRoom (clearTimer k s) = socketToRoom s"
  "nextAddr (clearTimer k s) = nextAddr s"
  "nextOid (clearTimer k s) = nextOid s"
  "roomTimers (clearTimer k s) = (roomTimers s)(k := None)"
  by (simp_all add: clearTimer_def)

lemma deleteRoom_fields [simp]:
  "heap (deleteRoom k s) = heap s"
  "rooms (deleteRoom k s) = AList.delete k (rooms s)"
  "pending (deleteRoom k s) = pending s"
  "socketToRoom (deleteRoom k s) = socketToRoom s"
  "nextAddr (deleteRoom k s) = nextAddr s"
  "nextOid (deleteRoom k s) = nextOid s"
  "roomTimers (deleteRoom k s) = roomTimers s"
  by (simp_all add: deleteRoom_def)

lemma startRound_fields:
  "rooms (fst (startRound now pick a s)) = rooms s"
  "socketToRoom (fst (startRound now pick a s)) = socketToRoom s"
  "nextAddr (fst (startRound now pick a s)) = nextAddr s"
  "nextOid (fst (startRound now pick a s)) = nextOid s"
  "b \<noteq> a \<Longrightarrow> heap (fst (startRound now pick a s)) b = heap s b"
  "k \<noteq> rid (heap s a) \<Longrightarrow> roomTimers (fst (startRound now pick a s)) k = roomTimers s k"
  "set (pending s) \<subseteq> set (pending (fst (startRound now pick a s)))"
  "rid (heap (fst (startRound now pick a s)) b) = rid (heap s b)"
  by (auto simp: startRound_def Let_def)

lemma endRound_fields:
  assumes "endRound now a rsn s = Inr (s', out)"
  shows "rooms s' = rooms s" "socketToRoom s' = socketToRoom s" "nextAddr s' = nextAddr s"
    "nextOid s' = nextOid s" "pending s' = pending s"
    "b \<noteq> a \<Longrightarrow> heap s' b = heap s b"
    "k \<noteq> rid (heap s a) \<Longrightarrow> roomTimers s' k = roomTimers s k"
    "rid (heap s' b) = rid (heap s b)"
    "players (heap s' b) = players (heap s b)"
  using assms unfolding endRound_def Let_def
  by (auto split: sum.splits if_splits)


lemma joinFinish_fields:
  "rooms (fst (joinFinish now pick sid c nm a s)) = rooms s"
  "nextAddr (fst (joinFinish now pick sid c nm a s)) = nextAddr s"
  "nextOid (fst (joinFinish now pick sid c nm a s)) = nextOid s"
  "b \<noteq> a \<Longrightarrow> heap (fst (joinFinish now pick sid c nm a s)) b = heap s b"
  "k \<noteq> rid (heap s a) \<Longrightarrow> roomTimers (fst (joinFinish now pick sid c nm a s)) k = roomTimers s k"
  "set (pending s) \<subseteq> set (pending (fst (joinFinish now pick sid c nm a s)))"
  "rid (heap (fst (joinFinish now pick sid c nm a s)) b) = rid (heap s b)"
  "socketToRoom (fst (joinFinish now pick sid c nm a s)) = (socketToRoom s)(sid \<mapsto> c)"
  using startRound_fields(7)[of "s\<lparr>socketToRoom := (socketToRoom s)(sid \<mapsto> c)\<rparr>" now pick a]
  by (auto simp: joinFinish_def Let_def case_prod_beta startRound_fields)

lemma getOrCreateRoom_fields:
  "pending (fst (getOrCreateRoom c s)) = pending s"
  "roomTimers (fst (getOrCreateRoom c s)) = roomTimers s"
  "socketToRoom (fst (getOrCreateRoom c s)) = socketToRoom s"
  "nextOid (fst (getOrCreateRoom c s)) = nextOid s"
  "k \<noteq> c \<Longrightarrow> map_of (rooms (fst (getOrCreateRoom c s))) k = map_of (rooms s) k"
  "map_of (rooms (fst (getOrCreateRoom c s))) c = Some (snd (getOrCreateRoom c s))"
  "b < nextAddr s \<Longrightarrow> heap (fst (getOrCreateRoom c s)) b = heap s b"
  by (auto simp: getOrCreateRoom_def Let_def update_conv' split: option.splits)


lemma checkGameEnd_total:
  "players r \<noteq> [] \<or> round r < MAX_ROUNDS \<Longrightarrow> \<exists>g. checkGameEnd r = Inr g"
  by (cases "players r")
     (auto simp: checkGameEnd_def reduce1_def Let_def split: option.splits)

lemma endRound_total:
  assumes "players (heap s a) \<noteq> [] \<or> round (heap s a) < MAX_ROUNDS"
  shows "\<exists>s' out. endRound now a rsn s = Inr (s', out)"
proof -
  from checkGameEnd_total[OF assms] obtain g where "checkGameEnd (heap s a) = Inr g" ..
  then show ?thesis
    unfolding endRound_def Let_def by (simp split: if_splits)
qed

lemma endRound_room:
  assumes "endRound now a rsn s = Inr (s', out)"
  shows "players (heap s' b) = players (heap s b)"
    "guessedThisRound (heap s' b) = guessedThisRound (heap s b)"
    "round (heap s' b) = round (heap s b)"
    "turnIndex (heap s' b) = turnIndex (heap s b)"
    "phase (heap s' a) \<noteq> Drawing"
    "(IoTo (rid (heap s a)), RoundEnded (rid (heap s a)) rsn) \<in> set out"
  using assms unfolding endRound_def Let_def
  by (auto split: sum.splits if_splits)

lemma length_updFirst [simp]: "length (updFirst P f xs) = length xs"
  by (induction xs) auto

lemma updFirst_findIndex:
  "findIndex P xs = Some i \<Longrightarrow> updFirst P f xs = xs[i := f (xs ! i)]"
  by (induction xs arbitrary: i) (auto split: if_splits)

lemma updFirst_none: "findIndex P xs = None \<Longrightarrow> updFirst P f xs = xs"
  by (induction xs) (auto split: if_splits)

lemma findIndex_Some:
  "findIndex P xs = Some i \<Longrightarrow> i < length xs \<and> P (xs ! i) \<and> (\<forall>j < i. \<not> P (xs ! j))"
proof (induction xs arbitrary: i)
  case Nil
  then show ?case by simp
next
  case (Cons x xs)
  show ?case
  proof (cases "P x")
    case True
    with Cons.prems show ?thesis by simp
  next
    case False
    with Cons.prems obtain k where k: "findIndex P xs = Some k" "i = Suc k" by auto
    from Cons.IH[OF k(1)] False k(2) show ?thesis
      by (auto simp: nth_Cons split: nat.splits)
  qed
qed

lemma find_findIndex:
  "find P xs = (case findIndex P xs of None \<Rightarrow> None | Some i \<Rightarrow> Some (xs ! i))"
  by (induction xs) (auto split: option.splits)

lemma findIndex_cong_pid:
  "map pid ys = map pid xs \<Longrightarrow>
     findIndex (\<lambda>p. pid p = x) ys = findIndex (\<lambda>p. pid p = x) xs"
proof (induction xs arbitrary: ys)
  case Nil
  then show ?case by simp
next
  case (Cons a xs)
  then obtain b ys' where "ys = b # ys'" "pid b = pid a" "map pid ys' = map pid xs" by auto
  with Cons.IH[of ys'] show ?case by simp
qed

lemma map_pid_score_upd [simp]:
  "map pid (xs[i := (xs ! i)\<lparr> score := n \<rparr>]) = map pid xs"
proof (cases "i < length xs")
  case True
  then have "(map pid xs)[i := pid (xs ! i)] = map pid xs"
    by (metis list_update_id nth_map)
  then show ?thesis by (simp add: map_update)
next
  case False
  then have "xs[i := (xs ! i)\<lparr> score := n \<rparr>] = xs"
    by (intro list_update_beyond) simp
  then show ?thesis by simp
qed

lemma awardPoints_eq:
  assumes "findIndex (\<lambda>p. pid p = sid) ps = Some i"
      and "findIndex (\<lambda>p. pid p = did) ps = Some j"
      and "did \<noteq> sid"
  shows "awardPoints sid did ps =
           ps[i := (ps ! i)\<lparr> score := score (ps ! i) + 2 \<rparr>,
              j := (ps ! j)\<lparr> score := score (ps ! j) + 1 \<rparr>]"
proof -
  let ?ps1 = "ps[i := (ps ! i)\<lparr> score := score (ps ! i) + 2 \<rparr>]"
  from findIndex_Some[OF assms(1)] findIndex_Some[OF assms(2)] assms(3)
  have ne: "i \<noteq> j" and lt: "i < length ps" "j < length ps" by auto
  have 1: "updFirst (\<lambda>p. pid p = sid) (\<lambda>p. p\<lparr> score := score p + 2 \<rparr>) ps = ?ps1"
    using assms(1) by (rule updFirst_findIndex)
  have 2: "findIndex (\<lambda>p. pid p = did) ?ps1 = Some j"
    using assms(2) findIndex_cong_pid[of ?ps1 ps did] by simp
  have 3: "updFirst (\<lambda>p. pid p = did) (\<lambda>p. p\<lparr> score := score p + 1 \<rparr>) ?ps1
             = ?ps1[j := (?ps1 ! j)\<lparr> score := score (?ps1 ! j) + 1 \<rparr>]"
    using 2 by (rule updFirst_findIndex)
  have 4: "?ps1 ! j = ps ! j" using ne by simp
  show ?thesis
    unfolding awardPoints_def Let_def 1 find_findIndex 2 3 4 by simp
qed

lemma awardPoints_skip:
  assumes "findIndex (\<lambda>p. pid p = did) ps = None"
  shows "awardPoints sid did ps
           = updFirst (\<lambda>p. pid p = sid) (\<lambda>p. p\<lparr> score := score p + 2 \<rparr>) ps"
proof -
  have "map pid (updFirst (\<lambda>p. pid p = sid) (\<lambda>p. p\<lparr> score := score p + 2 \<rparr>) ps) = map pid ps"
    by (induction ps) auto
  from findIndex_cong_pid[OF this, of did]
  have "findIndex (\<lambda>p. pid p = did)
               (updFirst (\<lambda>p. pid p = sid) (\<lambda>p. p\<lparr> score := score p + 2 \<rparr>) ps) = None"
    using assms by simp
  then show ?thesis unfolding awardPoints_def Let_def find_findIndex by simp
qed

lemma findIndex_distinct:
  assumes "distinct (map f xs)" and "i < length xs"
  shows "findIndex (\<lambda>p. f p = f (xs ! i)) xs = Some i"
  using assms
proof (induction xs arbitrary: i)
  case Nil
  then show ?case by simp
next
  case (Cons x xs)
  show ?case
  proof (cases i)
    case 0
    then show ?thesis by simp
  next
    case (Suc k)
    with Cons.prems have "k < length xs" "xs ! k \<in> set xs" by auto
    with Cons.prems have "f x \<noteq> f (xs ! k)" by auto
    with Cons.IH[of k] Cons.prems Suc \<open>k < length xs\<close> show ?thesis by simp
  qed
qed


lemma findIndex_exists:
  "i < length xs \<Longrightarrow> P (xs ! i) \<Longrightarrow> \<exists>j. findIndex P xs = Some j"
proof (induction xs arbitrary: i)
  case Nil
  then show ?case by simp
next
  case (Cons x xs)
  show ?case
  proof (cases "P x")
    case True
    then show ?thesis by simp
  next
    case False
    with Cons.prems obtain k where "i = Suc k" "k < length xs" "P (xs ! k)"
      by (cases i) auto
    with Cons.IH[of k] False show ?thesis by auto
  qed
qed

lemma length_awardPoints [simp]: "length (awardPoints sid did ps) = length ps"
  by (simp add: awardPoints_def Let_def split: option.splits)

text \<open>
  A correct first guess by a player who is not the drawer is accepted: the handler adds 2
  to the entry \<open>i\<close> found for the sender's id and 1 to the entry \<open>j\<close> found for the
  drawer's id; nobody else's entry changes and the guess is recorded. When the ids in
  the room are distinct, \<open>j\<close> is the drawer's own position \<open>turnIndex mod length\<close>.
\<close>

lemma guess_awards_by_id:
  assumes rm: "map_of (rooms s) (trim roomId) = Some a"
      and ph: "phase (heap s a) = Drawing"
      and ng: "guessedThisRound (heap s a) = {}"
      and gi: "findIndex (\<lambda>p. pid p = sid) (players (heap s a)) = Some i"
      and ti: "turnIndex (heap s a) = Some t"
      and nd: "pid (players (heap s a) ! (t mod length (players (heap s a)))) \<noteq> sid"
      and wd: "word (heap s a) = Some w"
      and eq: "normalize_str guess = normalize_str w"
      and ne: "normalize_str w \<noteq> []"
  shows "\<exists>s' out j.
           guessSubmit now sid roomId guess s = Inr (s', out)
           \<and> findIndex (\<lambda>p. pid p = pid (players (heap s a) ! (t mod length (players (heap s a)))))
                 (players (heap s a)) = Some j
           \<and> players (heap s' a)
               = (players (heap s a))
                   [i := (players (heap s a) ! i)
                           \<lparr> score := score (players (heap s a) ! i) + 2 \<rparr>,
                    j := (players (heap s a) ! j)
                           \<lparr> score := score (players (heap s a) ! j) + 1 \<rparr>]
           \<and> (distinct (map pid (players (heap s a)))
                \<longrightarrow> j = t mod length (players (heap s a)))
           \<and> guessedThisRound (heap s' a) = {sid}
           \<and> (\<forall>did. find (\<lambda>p. pid p = did) (players (heap s a)) = None \<longrightarrow>
                  awardPoints sid did (players (heap s a))
                    = updFirst (\<lambda>p. pid p = sid) (\<lambda>p. p\<lparr> score := score p + 2 \<rparr>)
                        (players (heap s a)))"
proof -
  let ?ps = "players (heap s a)"
  let ?d = "t mod length ?ps"
  let ?did = "pid (?ps ! ?d)"
  from findIndex_Some[OF gi] have i: "i < length ?ps" "pid (?ps ! i) = sid" by auto
  then have nonempty: "?ps \<noteq> []" by auto
  then have d: "?d < length ?ps" by simp
  from findIndex_exists[of ?d ?ps "\<lambda>p. pid p = ?did"] d
  obtain j where j: "findIndex (\<lambda>p. pid p = ?did) ?ps = Some j" by auto
  have fp: "find (\<lambda>p. pid p = sid) ?ps = Some (?ps ! i)"
    by (simp add: find_findIndex gi)
  have dr: "indexMod (turnIndex (heap s a)) ?ps = Some (?ps ! ?d)"
    using nonempty by (simp add: indexMod_def ti)
  let ?s1 = "updRoom a (\<lambda>r. r\<lparr> players := awardPoints sid ?did (players r),
                               guessedThisRound := insert sid (guessedThisRound r) \<rparr>) s"
  have "players (heap ?s1 a) \<noteq> []" using nonempty
    by (metis (no_types, lifting) fun_upd_same heap_updRoom length_0_conv length_awardPoints
          room.select_convs(2) room.surjective room.update_convs(2) room.update_convs(6))
  then obtain s' out where er: "endRound now a Guessed ?s1 = Inr (s', out)"
    using endRound_total[of ?s1 a now Guessed] by blast
  have res: "guessSubmit now sid roomId guess s
               = Inr (s', emitScoreUpdate (heap ?s1 a)
                          @ [(IoTo (trim roomId),
                              ChatMessage (trim roomId) ''System''
                                (name (?ps ! i) @ '' guessed it!'') True)] @ out)"
    unfolding guessSubmit_def Let_def
    using rm ph ng fp dr nd wd eq ne er by simp
  have pl: "players (heap s' a) = awardPoints sid ?did ?ps"
    using endRound_room(1)[OF er, of a] by simp
  have gs: "guessedThisRound (heap s' a) = {sid}"
    using endRound_room(2)[OF er, of a] ng by simp
  have aw: "awardPoints sid ?did ?ps
              = ?ps[i := (?ps ! i)\<lparr> score := score (?ps ! i) + 2 \<rparr>,
                    j := (?ps ! j)\<lparr> score := score (?ps ! j) + 1 \<rparr>]"
    using gi j nd by (rule awardPoints_eq)
  have dj: "distinct (map pid ?ps) \<longrightarrow> j = ?d"
    using findIndex_distinct[of pid ?ps ?d] d j by auto
  have sk: "\<forall>did. find (\<lambda>p. pid p = did) ?ps = None \<longrightarrow>
              awardPoints sid did ?ps
                = updFirst (\<lambda>p. pid p = sid) (\<lambda>p. p\<lparr> score := score p + 2 \<rparr>) ?ps"
  proof (intro allI impI)
    fix did assume "find (\<lambda>p. pid p = did) ?ps = None"
    then have "findIndex (\<lambda>p. pid p = did) ?ps = None"
      by (simp add: find_findIndex split: option.splits)
    then show "awardPoints sid did ?ps
                = updFirst (\<lambda>p. pid p = sid) (\<lambda>p. p\<lparr> score := score p + 2 \<rparr>) ?ps"
      by (rule awardPoints_skip)
  qed
  from res j pl aw dj gs sk show ?thesis by auto
qed


subsection \<open>At most one recorded guess per round\<close>

lemma roomStepOK_refl [simp]: "roomStepOK r r"
  by (simp add: roomStepOK_def)

lemma roomStepOK_trans: "roomStepOK r r' \<Longrightarrow> roomStepOK r' r'' \<Longrightarrow> roomStepOK r r''"
  by (auto simp: roomStepOK_def)

lemma roomOK_step: "roomOK r \<Longrightarrow> roomStepOK r r' \<Longrightarrow> roomOK r'"
  by (auto simp: roomOK_def roomStepOK_def)

lemma stepOK_refl [simp]: "stepOK s s"
  by (simp add: stepOK_def)

lemma stepOK_heap_eq: "heap s' = heap s \<Longrightarrow> stepOK s0 s' = stepOK s0 s"
  by (simp add: stepOK_def)

lemma stepOK_fields [simp]:
  "stepOK s0 (s\<lparr> pending := x1 \<rparr>) = stepOK s0 s"
  "stepOK s0 (s\<lparr> socketToRoom := x2 \<rparr>) = stepOK s0 s"
  "stepOK s0 (s\<lparr> roomTimers := x3 \<rparr>) = stepOK s0 s"
  "stepOK s0 (s\<lparr> rooms := x4 \<rparr>) = stepOK s0 s"
  "stepOK s0 (s\<lparr> nextOid := x5 \<rparr>) = stepOK s0 s"
  "stepOK s0 (s\<lparr> nextAddr := x6 \<rparr>) = stepOK s0 s"
  "stepOK s0 (clearTimer k s) = stepOK s0 s"
  "stepOK s0 (deleteRoom k s) = stepOK s0 s"
  by (simp_all add: stepOK_def)

lemma stepOK_updRoom:
  "stepOK s0 s \<Longrightarrow> roomStepOK (heap s a) (f (heap s a)) \<Longrightarrow> stepOK s0 (updRoom a f s)"
  unfolding stepOK_def by (auto intro: roomStepOK_trans)

lemma stepOK_startTimer: "stepOK s0 s \<Longrightarrow> stepOK s0 (startTimer now a d k s)"
  unfolding stepOK_def
  by (auto simp: roomStepOK_def elim!: allE[where x=a])

lemma stepOK_startRound: "stepOK s0 s \<Longrightarrow> stepOK s0 (fst (startRound now pick a s))"
  unfolding startRound_def Let_def
  by (auto intro!: stepOK_startTimer stepOK_updRoom simp: roomStepOK_def)

lemma stepOK_endRound:
  "stepOK s0 s \<Longrightarrow> endRound now a rsn s = Inr (s', out) \<Longrightarrow> stepOK s0 s'"
  unfolding endRound_def Let_def
  by (auto intro!: stepOK_startTimer stepOK_updRoom simp: roomStepOK_def
           split: sum.splits if_splits)

lemma stepOK_intermissionDone:
  "stepOK s0 s \<Longrightarrow> stepOK s0 (fst (intermissionDone now pick a s))"
  unfolding intermissionDone_def Let_def
  by (auto intro!: stepOK_startRound stepOK_updRoom simp: roomStepOK_def)

lemma stepOK_timerTick:
  "stepOK s0 s \<Longrightarrow> timerTick now pick k s = Inr (s', out) \<Longrightarrow> stepOK s0 s'"
  unfolding timerTick_def Let_def
  by (auto intro!: stepOK_intermissionDone stepOK_updRoom
           elim!: stepOK_endRound[rotated]
           simp: roomStepOK_def case_prod_beta
           split: option.splits if_splits timerKind.splits sum.splits prod.splits)

lemma stepOK_deferredFire:
  "stepOK s0 s \<Longrightarrow> deferredFire n s = Inr (s', out) \<Longrightarrow> stepOK s0 s'"
  unfolding deferredFire_def Let_def
  by (auto split: if_splits deferred.splits option.splits)

lemma stepOK_leavePreviousRoom:
  "stepOK s0 s \<Longrightarrow> stepOK s0 (fst (leavePreviousRoom now sid c s))"
  unfolding leavePreviousRoom_def Let_def
  by (auto intro!: stepOK_updRoom simp: roomStepOK_def split: option.splits)

lemma stepOK_getOrCreateRoom:
  "stepOK s0 s \<Longrightarrow> stepOK s0 (fst (getOrCreateRoom c s))"
  unfolding getOrCreateRoom_def Let_def stepOK_def
  by (auto simp: roomStepOK_def newRoom_def split: option.splits)

lemma stepOK_joinFinish:
  "stepOK s0 s \<Longrightarrow> stepOK s0 (fst (joinFinish now pick sid c nm a s))"
  unfolding joinFinish_def Let_def case_prod_beta
  by (auto intro!: stepOK_startRound)

lemma stepOK_playerJoin:
  "stepOK s0 s \<Longrightarrow> stepOK s0 (fst (playerJoin now pick sid roomId nm s))"
  unfolding playerJoin_def Let_def case_prod_beta
  by (auto intro!: stepOK_joinFinish stepOK_updRoom stepOK_getOrCreateRoom
                   stepOK_leavePreviousRoom
           simp: roomStepOK_def split: option.splits)

lemma stepOK_playerLeave:
  "stepOK s0 s \<Longrightarrow> playerLeave now sid roomId s = Inr (s', out) \<Longrightarrow> stepOK s0 s'"
  unfolding playerLeave_def Let_def
  by (auto intro!: stepOK_updRoom elim!: stepOK_endRound[rotated]
           simp: roomStepOK_def
           split: option.splits if_splits sum.splits)

lemma stepOK_disconnect:
  "stepOK s0 s \<Longrightarrow> disconnect now sid s = Inr (s', out) \<Longrightarrow> stepOK s0 s'"
  unfolding disconnect_def Let_def
  by (auto intro!: stepOK_updRoom elim!: stepOK_endRound[rotated]
           simp: roomStepOK_def
           split: option.splits if_splits sum.splits)

lemma stepOK_roundSkip:
  "stepOK s0 s \<Longrightarrow> roundSkip now sid roomId s = Inr (s', out) \<Longrightarrow> stepOK s0 s'"
  unfolding roundSkip_def
  by (auto elim!: stepOK_endRound[rotated] split: option.splits if_splits)

lemma stepOK_roundStart:
  "stepOK s0 s \<Longrightarrow> stepOK s0 (fst (roundStart now pick roomId s))"
  unfolding roundStart_def
  by (auto intro!: stepOK_startRound split: option.splits)

lemma stepOK_gameRestart:
  "stepOK s0 s \<Longrightarrow> stepOK s0 (fst (gameRestart now pick roomId s))"
  unfolding gameRestart_def Let_def case_prod_beta
  by (auto intro!: stepOK_startRound stepOK_updRoom simp: roomStepOK_def
           split: option.splits)

lemma state_simple_handlers [simp]:
  "fst (chatMessage sid roomId message s) = s"
  "fst (drawStroke sid roomId points s) = s"
  "fst (roundClear sid roomId s) = s"
  by (auto simp: chatMessage_def drawStroke_def roundClear_def Let_def split: option.splits)

lemma stepOK_roomClose: "stepOK s0 s \<Longrightarrow> stepOK s0 (fst (roomClose sid roomId s))"
  unfolding roomClose_def Let_def
  by (auto split: option.splits)

lemma endRound_summary:
  assumes "endRound now a rsn s = Inr (s', out)"
  shows "guessedThisRound (heap s' a) = guessedThisRound (heap s a)
         \<and> phase (heap s' a) \<noteq> Drawing
         \<and> (\<forall>b. b \<noteq> a \<longrightarrow> heap s' b = heap s b)
         \<and> (IoTo (rid (heap s a)), RoundEnded (rid (heap s a)) rsn) \<in> set out"
  using endRound_room(2,5,6)[OF assms] endRound_fields(6)[OF assms] by simp

lemma guessSubmit_cases:
  assumes "guessSubmit now sid roomId guess s = Inr (s', out)"
  shows "(s' = s \<and> out = [])
         \<or> (\<exists>a. map_of (rooms s) (trim roomId) = Some a
                \<and> phase (heap s a) = Drawing \<and> guessedThisRound (heap s a) = {}
                \<and> guessedThisRound (heap s' a) = {sid} \<and> phase (heap s' a) \<noteq> Drawing
                \<and> (\<forall>b. b \<noteq> a \<longrightarrow> heap s' b = heap s b)
                \<and> (IoTo (rid (heap s a)), RoundEnded (rid (heap s a)) Guessed) \<in> set out)"
  using assms unfolding guessSubmit_def Let_def
  by (auto split: option.splits if_splits sum.splits dest!: endRound_summary)

lemma roomsOK_init: "roomsOK init"
  by (simp add: roomsOK_def roomOK_def init_def newRoom_def)

lemma roomsOK_stepOK: "roomsOK s \<Longrightarrow> stepOK s s' \<Longrightarrow> roomsOK s'"
  unfolding roomsOK_def stepOK_def by (blast intro: roomOK_step)

lemma step_cases:
  assumes "step now pick e s = Inr (s', out)"
  shows "stepOK s s'
         \<or> (\<exists>sid roomId guess a. e = GuessSubmit sid roomId guess
               \<and> phase (heap s a) = Drawing \<and> guessedThisRound (heap s a) = {}
               \<and> guessedThisRound (heap s' a) = {sid} \<and> phase (heap s' a) \<noteq> Drawing
               \<and> (\<forall>b. b \<noteq> a \<longrightarrow> heap s' b = heap s b)
               \<and> (IoTo (rid (heap s a)), RoundEnded (rid (heap s a)) Guessed) \<in> set out)"
proof (cases e)
  case (PlayerJoin sid roomId nm)
  with assms have "s' = fst (playerJoin now pick sid roomId nm s)" by auto
  then show ?thesis using stepOK_playerJoin[of s s] by simp
next
  case (PlayerLeave sid roomId)
  with assms show ?thesis using stepOK_playerLeave[of s s] by auto
next
  case (ChatMsg sid roomId message)
  with assms have "s' = fst (chatMessage sid roomId message s)" by auto
  then show ?thesis by simp
next
  case (GuessSubmit sid roomId guess)
  with assms have "guessSubmit now sid roomId guess s = Inr (s', out)" by simp
  from guessSubmit_cases[OF this] GuessSubmit show ?thesis by auto
next
  case (DrawStrokeEv sid roomId points)
  with assms have "s' = fst (drawStroke sid roomId points s)" by auto
  then show ?thesis by simp
next
  case (RoundClearEv sid roomId)
  with assms have "s' = fst (roundClear sid roomId s)" by auto
  then show ?thesis by simp
next
  case (RoundStartEv sid roomId)
  with assms have "s' = fst (roundStart now pick roomId s)" by auto
  then show ?thesis using stepOK_roundStart[of s s] by simp
next
  case (RoomCloseEv sid roomId)
  with assms have "s' = fst (roomClose sid roomId s)" by auto
  then show ?thesis using stepOK_roomClose[of s s] by simp
next
  case (RoundSkipEv sid roomId)
  with assms show ?thesis using stepOK_roundSkip[of s s] by auto
next
  case (GameRestartEv sid roomId)
  with assms have "s' = fst (gameRestart now pick roomId s)" by auto
  then show ?thesis using stepOK_gameRestart[of s s] by simp
next
  case (Disconnect sid)
  with assms show ?thesis using stepOK_disconnect[of s s] by auto
next
  case (TimerTick roomId)
  with assms show ?thesis using stepOK_timerTick[of s s] by auto
next
  case (DeferredFire n)
  with assms show ?thesis using stepOK_deferredFire[of s s] by auto
qed (use assms in auto)

lemma roomsOK_step:
  assumes "roomsOK s" and "step now pick e s = Inr (s', out)"
  shows "roomsOK s'"
proof -
  from step_cases[OF assms(2)] show ?thesis
  proof
    assume "stepOK s s'"
    with assms(1) show ?thesis by (rule roomsOK_stepOK)
  next
    assume "\<exists>sid roomId guess a. e = GuessSubmit sid roomId guess
               \<and> phase (heap s a) = Drawing \<and> guessedThisRound (heap s a) = {}
               \<and> guessedThisRound (heap s' a) = {sid} \<and> phase (heap s' a) \<noteq> Drawing
               \<and> (\<forall>b. b \<noteq> a \<longrightarrow> heap s' b = heap s b)
               \<and> (IoTo (rid (heap s a)), RoundEnded (rid (heap s a)) Guessed) \<in> set out"
    then obtain sid a where a: "guessedThisRound (heap s' a) = {sid}"
      "phase (heap s' a) \<noteq> Drawing" "\<forall>b. b \<noteq> a \<longrightarrow> heap s' b = heap s b" by blast
    show ?thesis unfolding roomsOK_def
    proof
      fix b show "roomOK (heap s' b)"
      proof (cases "b = a")
        case True
        with a(1,2) show ?thesis by (simp add: roomOK_def)
      next
        case False
        with a(3) assms(1) show ?thesis by (simp add: roomsOK_def)
      qed
    qed
  qed
qed

lemma roomsOK_run: "roomsOK s \<Longrightarrow> run evs s = Inr s' \<Longrightarrow> roomsOK s'"
proof (induction evs arbitrary: s)
  case Nil
  then show ?case by simp
next
  case (Cons ev evs)
  obtain now pick e where ev: "ev = (now, pick, e)" by (cases ev) auto
  from Cons.prems(2) obtain s1 out where
    st: "step now pick e s = Inr (s1, out)" and rest: "run evs s1 = Inr s'"
    unfolding ev by (auto split: sum.splits)
  from roomsOK_step[OF Cons.prems(1) st] have "roomsOK s1" .
  from Cons.IH[OF this rest] show ?case .
qed

text \<open>
  C5: in every state the server reaches from its initial state, by any sequence of
  inbound events, timer callbacks and deferred callbacks, every room object has at most
  one entry in \<open>guessedThisRound\<close>, and none while its phase is \<open>drawing\<close>. Moreover
  a handler that makes the set non-empty is the \<^verbatim>\<open>guess:submit\<close> handler, the set is
  then the singleton of the guesser, and that same handler has ended the round: it
  emitted \<^verbatim>\<open>round:ended\<close> with reason \<open>guessed\<close> and left the room out of phase
  \<open>drawing\<close>.
\<close>

theorem C5_guessed_at_most_one:
  assumes "run evs init = Inr s"
  shows "finite (guessedThisRound (heap s a)) \<and> card (guessedThisRound (heap s a)) \<le> 1
         \<and> (phase (heap s a) = Drawing \<longrightarrow> guessedThisRound (heap s a) = {})
         \<and> (\<forall>now pick e s' out.
               step now pick e s = Inr (s', out) \<longrightarrow>
               guessedThisRound (heap s' a) \<noteq> {} \<longrightarrow>
               guessedThisRound (heap s' a) \<noteq> guessedThisRound (heap s a) \<longrightarrow>
               (\<exists>sid roomId guess. e = GuessSubmit sid roomId guess
                  \<and> guessedThisRound (heap s a) = {}
                  \<and> guessedThisRound (heap s' a) = {sid}
                  \<and> phase (heap s' a) \<noteq> Drawing
                  \<and> (IoTo (rid (heap s a)), RoundEnded (rid (heap s a)) Guessed) \<in> set out))"
proof -
  from roomsOK_run[OF roomsOK_init assms] have "roomOK (heap s a)" by (simp add: roomsOK_def)
  then have 1: "finite (guessedThisRound (heap s a)) \<and> card (guessedThisRound (heap s a)) \<le> 1
         \<and> (phase (heap s a) = Drawing \<longrightarrow> guessedThisRound (heap s a) = {})"
    by (simp add: roomOK_def)
  have 2: "\<forall>now pick e s' out.
               step now pick e s = Inr (s', out) \<longrightarrow>
               guessedThisRound (heap s' a) \<noteq> {} \<longrightarrow>
               guessedThisRound (heap s' a) \<noteq> guessedThisRound (heap s a) \<longrightarrow>
               (\<exists>sid roomId guess. e = GuessSubmit sid roomId guess
                  \<and> guessedThisRound (heap s a) = {}
                  \<and> guessedThisRound (heap s' a) = {sid}
                  \<and> phase (heap s' a) \<noteq> Drawing
                  \<and> (IoTo (rid (heap s a)), RoundEnded (rid (heap s a)) Guessed) \<in> set out)"
  proof (intro allI impI)
    fix now pick e s' out
    assume st: "step now pick e s = Inr (s', out)"
       and ne: "guessedThisRound (heap s' a) \<noteq> {}"
       and ch: "guessedThisRound (heap s' a) \<noteq> guessedThisRound (heap s a)"
    from step_cases[OF st]
    show "\<exists>sid roomId guess. e = GuessSubmit sid roomId guess
                  \<and> guessedThisRound (heap s a) = {}
                  \<and> guessedThisRound (heap s' a) = {sid}
                  \<and> phase (heap s' a) \<noteq> Drawing
                  \<and> (IoTo (rid (heap s a)), RoundEnded (rid (heap s a)) Guessed) \<in> set out"
    proof
      assume "stepOK s s'"
      then have "roomStepOK (heap s a) (heap s' a)" by (simp add: stepOK_def)
      with ne ch show ?thesis by (simp add: roomStepOK_def)
    next
      assume "\<exists>sid roomId guess a. e = GuessSubmit sid roomId guess
               \<and> phase (heap s a) = Drawing \<and> guessedThisRound (heap s a) = {}
               \<and> guessedThisRound (heap s' a) = {sid} \<and> phase (heap s' a) \<noteq> Drawing
               \<and> (\<forall>b. b \<noteq> a \<longrightarrow> heap s' b = heap s b)
               \<and> (IoTo (rid (heap s a)), RoundEnded (rid (heap s a)) Guessed) \<in> set out"
      then obtain sid roomId guess a' where g: "e = GuessSubmit sid roomId guess"
        "guessedThisRound (heap s a') = {}" "guessedThisRound (heap s' a') = {sid}"
        "phase (heap s' a') \<noteq> Drawing" "\<forall>b. b \<noteq> a' \<longrightarrow> heap s' b = heap s b"
        "(IoTo (rid (heap s a')), RoundEnded (rid (heap s a')) Guessed) \<in> set out"
        by blast
      from g(5) ch have "a = a'" by auto
      with g show ?thesis by blast
    qed
  qed
  from 1 2 show ?thesis by blast
qed

lemma Inr_projr: "\<not> isl x \<Longrightarrow> x = Inr (projr x)"
  by (cases x) auto

theorem C5_guessed_at_most_one_witness:
  "run drawing_trace init = Inr drawing_state
   \<and> guess_step = Inr (fst (projr guess_step), snd (projr guess_step))
   \<and> guessedThisRound (heap (fst (projr guess_step)) 0) \<noteq> {}
   \<and> guessedThisRound (heap (fst (projr guess_step)) 0) \<noteq> guessedThisRound (heap drawing_state 0)
   \<and> finite (guessedThisRound (heap drawing_state 0))
   \<and> card (guessedThisRound (heap drawing_state 0)) \<le> 1
   \<and> phase (heap drawing_state 0) = Drawing
   \<and> guessedThisRound (heap drawing_state 0) = {}
   \<and> guessedThisRound (heap (fst (projr guess_step)) 0) = {''B''}
   \<and> phase (heap (fst (projr guess_step)) 0) \<noteq> Drawing
   \<and> (IoTo (rid (heap drawing_state 0)), RoundEnded (rid (heap drawing_state 0)) Guessed)
        \<in> set (snd (projr guess_step))"
proof -
  have "\<not> isl (run drawing_trace init)" by code_simp
  then have 1: "run drawing_trace init = Inr drawing_state"
    unfolding drawing_state_def by (rule Inr_projr)
  have "\<not> isl guess_step" by code_simp
  then have 2: "guess_step = Inr (fst (projr guess_step), snd (projr guess_step))"
    using Inr_projr by fastforce
  have 3: "guessedThisRound (heap (fst (projr guess_step)) 0) \<noteq> {}" by code_simp
  have 4: "guessedThisRound (heap (fst (projr guess_step)) 0)
             \<noteq> guessedThisRound (heap drawing_state 0)" by code_simp
  note t = C5_guessed_at_most_one[OF 1, of 0]
  from t have 5: "finite (guessedThisRound (heap drawing_state 0))"
    and 6: "card (guessedThisRound (heap drawing_state 0)) \<le> 1"
    and 7: "phase (heap drawing_state 0) = Drawing \<longrightarrow> guessedThisRound (heap drawing_state 0) = {}"
    by simp_all
  have 9: "phase (heap drawing_state 0) = Drawing" by code_simp
  with 7 have 10: "guessedThisRound (heap drawing_state 0) = {}" by simp
  from t have "step 9000 0 (GuessSubmit ''B'' ''r1'' '' CAT  '') drawing_state
                 = Inr (fst (projr guess_step), snd (projr guess_step)) \<longrightarrow>
               guessedThisRound (heap (fst (projr guess_step)) 0) \<noteq> {} \<longrightarrow>
               guessedThisRound (heap (fst (projr guess_step)) 0)
                 \<noteq> guessedThisRound (heap drawing_state 0) \<longrightarrow>
               (\<exists>sid roomId guess. GuessSubmit ''B'' ''r1'' '' CAT  '' = GuessSubmit sid roomId guess
                  \<and> guessedThisRound (heap drawing_state 0) = {}
                  \<and> guessedThisRound (heap (fst (projr guess_step)) 0) = {sid}
                  \<and> phase (heap (fst (projr guess_step)) 0) \<noteq> Drawing
                  \<and> (IoTo (rid (heap drawing_state 0)), RoundEnded (rid (heap drawing_state 0)) Guessed)
                        \<in> set (snd (projr guess_step)))"
    by blast
  with 2 3 4 have 8: "guessedThisRound (heap (fst (projr guess_step)) 0) = {''B''}
     \<and> phase (heap (fst (projr guess_step)) 0) \<noteq> Drawing
     \<and> (IoTo (rid (heap drawing_state 0)), RoundEnded (rid (heap drawing_state 0)) Guessed)
          \<in> set (snd (projr guess_step))"
    unfolding guess_step_def by auto
  from 1 2 3 4 5 6 9 10 8 show ?thesis by (intro conjI) simp_all
qed

subsection \<open>The secret word in emissions\<close>

lemma noWord_simps [simp]:
  "noWord []"
  "noWord (xs @ ys) = (noWord xs \<and> noWord ys)"
  "noWord (em # xs) = (\<not> isWordPayload (snd em) \<and> noWord xs)"
  by (auto simp: noWord_def)

lemma isWordPayload_simps [simp]:
  "isWordPayload (RoundWord w)"
  "\<not> isWordPayload (RoomsList l)"
  "\<not> isWordPayload (RoomState rs)"
  "\<not> isWordPayload (RoundClear k)"
  "\<not> isWordPayload (RoundEnded k r)"
  "\<not> isWordPayload (ScoreUpdate k ps)"
  "\<not> isWordPayload (GameOver g)"
  "\<not> isWordPayload (ChatMessage k f t b)"
  "\<not> isWordPayload (DrawStroke k pts)"
  "\<not> isWordPayload (JoinError ko m c)"
  by (simp_all add: isWordPayload_def)

lemma noWord_broadcasts [simp]:
  "noWord (broadcastRoomState now r)"
  "noWord (broadcastRoomsList s)"
  "noWord (emitScoreUpdate r)"
  by (simp_all add: broadcastRoomState_def broadcastRoomsList_def emitScoreUpdate_def Let_def)

lemma noWord_startRound [simp]: "noWord (snd (startRound now pick a s))"
  by (simp add: startRound_def Let_def)

lemma noWord_endRound: "endRound now a rsn s = Inr (s', out) \<Longrightarrow> noWord out"
  unfolding endRound_def Let_def
  by (auto split: sum.splits if_splits)

lemma noWord_intermissionDone [simp]: "noWord (snd (intermissionDone now pick a s))"
  by (simp add: intermissionDone_def Let_def)

lemma noWord_timerTick: "timerTick now pick k s = Inr (s', out) \<Longrightarrow> noWord out"
  unfolding timerTick_def Let_def case_prod_beta
  by (auto split: option.splits if_splits timerKind.splits sum.splits
           dest: noWord_endRound)

lemma noWord_leavePreviousRoom [simp]: "noWord (snd (leavePreviousRoom now sid c s))"
  by (simp add: leavePreviousRoom_def Let_def split: option.splits)

lemma noWord_joinFinish [simp]: "noWord (snd (joinFinish now pick sid c nm a s))"
  by (simp add: joinFinish_def Let_def case_prod_beta)

lemma noWord_playerJoin [simp]: "noWord (snd (playerJoin now pick sid roomId nm s))"
  by (simp add: playerJoin_def Let_def case_prod_beta split: option.splits)

lemma noWord_playerLeave: "playerLeave now sid roomId s = Inr (s', out) \<Longrightarrow> noWord out"
  unfolding playerLeave_def Let_def
  by (auto split: option.splits if_splits sum.splits dest: noWord_endRound)

lemma noWord_chatMessage [simp]: "noWord (snd (chatMessage sid roomId message s))"
  by (simp add: chatMessage_def Let_def split: option.splits)

lemma noWord_guessSubmit: "guessSubmit now sid roomId guess s = Inr (s', out) \<Longrightarrow> noWord out"
  unfolding guessSubmit_def Let_def
  by (auto split: option.splits if_splits sum.splits dest: noWord_endRound)

lemma noWord_drawStroke [simp]: "noWord (snd (drawStroke sid roomId points s))"
  by (simp add: drawStroke_def Let_def split: option.splits)

lemma noWord_roundClear [simp]: "noWord (snd (roundClear sid roomId s))"
  by (simp add: roundClear_def Let_def split: option.splits)

lemma noWord_roundStart [simp]: "noWord (snd (roundStart now pick roomId s))"
  by (simp add: roundStart_def split: option.splits)

lemma noWord_roomClose [simp]: "noWord (snd (roomClose sid roomId s))"
  by (simp add: roomClose_def Let_def split: option.splits)

lemma noWord_roundSkip: "roundSkip now sid roomId s = Inr (s', out) \<Longrightarrow> noWord out"
  unfolding roundSkip_def
  by (auto split: option.splits if_splits dest: noWord_endRound)

lemma noWord_gameRestart [simp]: "noWord (snd (gameRestart now pick roomId s))"
  by (simp add: gameRestart_def Let_def case_prod_beta split: option.splits)

lemma noWord_disconnect: "disconnect now sid s = Inr (s', out) \<Longrightarrow> noWord out"
  unfolding disconnect_def Let_def
  by (auto split: option.splits if_splits sum.splits dest: noWord_endRound)

lemma word_deferredFire:
  assumes "deferredFire n s = Inr (s', out)" and "(aud, RoundWord wd) \<in> set out"
  shows "\<exists>a obj drawerId. n < length (pending s)
           \<and> pending s ! n = WordDelivery a (Some (obj, drawerId))
           \<and> aud = IoTo drawerId \<and> wd = word (heap s a)"
  using assms unfolding deferredFire_def Let_def
  by (auto split: if_splits deferred.splits option.splits
           simp: broadcastRoomsList_def Let_def)

lemma word_step:
  assumes "step now pick e s = Inr (s', out)" and "(aud, RoundWord wd) \<in> set out"
  shows "\<exists>n a obj drawerId. e = DeferredFire n \<and> n < length (pending s)
           \<and> pending s ! n = WordDelivery a (Some (obj, drawerId))
           \<and> aud = IoTo drawerId \<and> wd = word (heap s a)"
proof (cases e)
  case (DeferredFire n)
  with assms(1) have "deferredFire n s = Inr (s', out)" by simp
  from word_deferredFire[OF this assms(2)] DeferredFire show ?thesis by blast
next
  case (PlayerJoin sid roomId nm)
  with assms(1) have "out = snd (playerJoin now pick sid roomId nm s)" by auto
  then have "noWord out" by simp
  with assms(2) show ?thesis by (auto simp: noWord_def)
next
  case (PlayerLeave sid roomId)
  with assms(1) have "noWord out" by (auto dest: noWord_playerLeave)
  with assms(2) show ?thesis by (auto simp: noWord_def)
next
  case (ChatMsg sid roomId message)
  with assms(1) have "out = snd (chatMessage sid roomId message s)" by auto
  then have "noWord out" by simp
  with assms(2) show ?thesis by (auto simp: noWord_def)
next
  case (GuessSubmit sid roomId guess)
  with assms(1) have "noWord out" by (auto dest: noWord_guessSubmit)
  with assms(2) show ?thesis by (auto simp: noWord_def)
next
  case (DrawStrokeEv sid roomId points)
  with assms(1) have "out = snd (drawStroke sid roomId points s)" by auto
  then have "noWord out" by simp
  with assms(2) show ?thesis by (auto simp: noWord_def)
next
  case (RoundClearEv sid roomId)
  with assms(1) have "out = snd (roundClear sid roomId s)" by auto
  then have "noWord out" by simp
  with assms(2) show ?thesis by (auto simp: noWord_def)
next
  case (RoundStartEv sid roomId)
  with assms(1) have "out = snd (roundStart now pick roomId s)" by auto
  then have "noWord out" by simp
  with assms(2) show ?thesis by (auto simp: noWord_def)
next
  case (RoomCloseEv sid roomId)
  with assms(1) have "out = snd (roomClose sid roomId s)" by auto
  then have "noWord out" by simp
  with assms(2) show ?thesis by (auto simp: noWord_def)
next
  case (RoundSkipEv sid roomId)
  with assms(1) have "noWord out" by (auto dest: noWord_roundSkip)
  with assms(2) show ?thesis by (auto simp: noWord_def)
next
  case (GameRestartEv sid roomId)
  with assms(1) have "out = snd (gameRestart now pick roomId s)" by auto
  then have "noWord out" by simp
  with assms(2) show ?thesis by (auto simp: noWord_def)
next
  case (Disconnect sid)
  with assms(1) have "noWord out" by (auto dest: noWord_disconnect)
  with assms(2) show ?thesis by (auto simp: noWord_def)
next
  case (TimerTick roomId)
  with assms(1) have "noWord out" by (auto dest: noWord_timerTick)
  with assms(2) show ?thesis by (auto simp: noWord_def)
qed (use assms in auto)

lemma payload_word_independent:
  "roomStatePayload now (room\<lparr> word := w' \<rparr>) = roomStatePayload now room"
  "emitScoreUpdate (room\<lparr> word := w' \<rparr>) = emitScoreUpdate room"
  "gameOverPayload (room\<lparr> word := w' \<rparr>) g = gameOverPayload room g"
  "getPublicRooms (updRoom a (\<lambda>r. r\<lparr> word := w' \<rparr>) s) = getPublicRooms s"
  by (auto simp: roomStatePayload_def emitScoreUpdate_def gameOverPayload_def
        finalScoresOf_def getPublicRooms_def updRoom_def Let_def)

lemma chat_suppressed:
  assumes "map_of (rooms s) (trim roomId) = Some a" and "word (heap s a) = Some w"
      and "w \<noteq> []" and "normalize_str (trim message) = normalize_str w"
  shows "chatMessage sid roomId message s = (s, [])"
  using assms unfolding chatMessage_def Let_def
  by (simp split: option.splits)

lemma startRound_pending:
  "length (players (heap s a)) \<ge> 2 \<Longrightarrow>
   pending (fst (startRound now pick a s))
     = pending s @ [WordDelivery a (map_option (\<lambda>d. (oid d, pid d))
                                      (indexMod (turnIndex (heap s a)) (players (heap s a))))]"
  by (simp add: startRound_def Let_def)

subsection \<open>The registry invariant\<close>



lemma shapeStep_refl [simp]: "shapeStep s s"
  by (simp add: shapeStep_def)

lemma shapeStep_same:
  "shapeStep s0 s \<Longrightarrow> nextAddr s' = nextAddr s \<Longrightarrow> rooms s' = rooms s
     \<Longrightarrow> (\<And>b. rid (heap s' b) = rid (heap s b)) \<Longrightarrow> shapeStep s0 s'"
  unfolding shapeStep_def by simp

lemma shapeStep_fields [simp]:
  "shapeStep s0 (s\<lparr> pending := x1 \<rparr>) = shapeStep s0 s"
  "shapeStep s0 (s\<lparr> socketToRoom := x2 \<rparr>) = shapeStep s0 s"
  "shapeStep s0 (s\<lparr> roomTimers := x3 \<rparr>) = shapeStep s0 s"
  "shapeStep s0 (s\<lparr> nextOid := x5 \<rparr>) = shapeStep s0 s"
  "shapeStep s0 (clearTimer k s) = shapeStep s0 s"
  by (simp_all add: shapeStep_def)


lemma shapeStep_startTimer: "shapeStep s0 s \<Longrightarrow> shapeStep s0 (startTimer now a d k s)"
  by (erule shapeStep_same) simp_all























lemma leavePreviousRoom_prev:
  assumes "socketToRoom s sid = Some R" and "R \<noteq> []" and "R \<noteq> c"
      and "map_of (rooms s) R = Some a"
  shows "players (heap (fst (leavePreviousRoom now sid c s)) a)
           = filter (\<lambda>p. pid p \<noteq> sid) (players (heap s a))"
    "phase (heap (fst (leavePreviousRoom now sid c s)) a) = phase (heap s a)"
    "word (heap (fst (leavePreviousRoom now sid c s)) a) = word (heap s a)"
    "roundEndAt (heap (fst (leavePreviousRoom now sid c s)) a) = roundEndAt (heap s a)"
    "round (heap (fst (leavePreviousRoom now sid c s)) a) = round (heap s a)"
    "guessedThisRound (heap (fst (leavePreviousRoom now sid c s)) a)
       = guessedThisRound (heap s a)"
    "roomTimers (fst (leavePreviousRoom now sid c s)) = roomTimers s"
    "rooms (fst (leavePreviousRoom now sid c s)) = rooms s"
    "nextAddr (fst (leavePreviousRoom now sid c s)) = nextAddr s"
    "filter (\<lambda>p. pid p \<noteq> sid) (players (heap s a)) = [] \<Longrightarrow>
       pending (fst (leavePreviousRoom now sid c s)) = pending s @ [DeletePrevRoom R]"
    "(IoTo k, RoundEnded k rsn) \<notin> set (snd (leavePreviousRoom now sid c s))"
  using assms
  by (auto simp: leavePreviousRoom_def Let_def broadcastRoomState_def split: option.splits)

lemma retarget_DeletePrevRoom [simp]: "retarget obj sid (DeletePrevRoom k) = DeletePrevRoom k"
  by (simp add: retarget_def)

lemma retarget_keeps:
  "DeletePrevRoom k \<in> set ps \<Longrightarrow> \<exists>x\<in>set ps. DeletePrevRoom k = retarget obj sid x"
  by (rule bexI[where x = "DeletePrevRoom k"]) simp_all



lemma pending_joinFinish_mono:
  "d \<in> set (pending s) \<Longrightarrow> d \<in> set (pending (fst (joinFinish now pick sid c nm a s)))"
  using joinFinish_fields(6)[of s now pick sid c nm a] by auto





subsection \<open>Joining another room\<close>


lemma map_of_delete_same [simp]: "map_of (AList.delete k al) k = None"
  by (simp add: delete_conv')






subsection \<open>When an emptied room is deleted\<close>

lemma leave_last_player:
  assumes "(if trim roomId \<noteq> [] then Some (trim roomId) else socketToRoom s sid) = Some k"
      and "k \<noteq> []" and "map_of (rooms s) k = Some a"
      and "players (heap s a) = [p]" and "pid p = sid"
  shows "\<exists>s' out. playerLeave now sid roomId s = Inr (s', out)
           \<and> map_of (rooms s') k = None \<and> pending s' = pending s"
  using assms unfolding playerLeave_def Let_def
  by (auto split: option.splits if_splits)

lemma join_elsewhere_defers:
  assumes sr: "socketToRoom s sid = Some k" and rne: "k \<noteq> []"
      and rc: "k \<noteq> cleanRoomIdOf roomId"
      and ra: "map_of (rooms s) k = Some a" and nm: "trim nm \<noteq> []"
      and em: "filter (\<lambda>p. pid p \<noteq> sid) (players (heap s a)) = []"
  shows "map_of (rooms (fst (playerJoin now pick sid roomId nm s))) k = Some a
         \<and> DeletePrevRoom k \<in> set (pending (fst (playerJoin now pick sid roomId nm s)))"
proof -
  let ?c = "cleanRoomIdOf roomId"
  let ?s1 = "fst (leavePreviousRoom now sid ?c s)"
  note lp = leavePreviousRoom_prev[OF sr rne rc ra, where now = now]
  have p1: "DeletePrevRoom k \<in> set (pending ?s1)" using lp(10)[OF em] by simp
  have r1: "map_of (rooms ?s1) k = Some a" using lp(8) ra by simp
  have 1: "map_of (rooms (fst (playerJoin now pick sid roomId nm s))) k = Some a"
    using nm rc r1 unfolding playerJoin_def Let_def case_prod_beta
    by (auto simp: joinFinish_fields getOrCreateRoom_fields split: option.splits)
  have 2: "DeletePrevRoom k \<in> set (pending (fst (playerJoin now pick sid roomId nm s)))"
    using nm p1 unfolding playerJoin_def Let_def case_prod_beta
    by (auto intro!: pending_joinFinish_mono retarget_keeps split: option.splits
             simp: image_iff getOrCreateRoom_fields)
  from 1 2 show ?thesis by simp
qed

lemma fire_deletion:
  assumes "n < length (pending s)" and "pending s ! n = DeletePrevRoom k"
      and "map_of (rooms s) k = Some a"
  shows "players (heap s a) \<noteq> [] \<longrightarrow>
           (\<exists>s'. deferredFire n s = Inr (s', []) \<and> rooms s' = rooms s)"
    "players (heap s a) = [] \<longrightarrow>
           (\<exists>s' out. deferredFire n s = Inr (s', out) \<and> map_of (rooms s') k = None)"
  using assms unfolding deferredFire_def Let_def
  by auto

text \<open>
  C3, as the specification states it, fails: \<^verbatim>\<open>player:leave\<close> deletes the emptied room
  itself. Al is alone in r1 and sends \<^verbatim>\<open>player:leave\<close>: when the handler returns r1 is
  no longer registered and no deletion is queued; Bob, joining r1 half a second later,
  gets a new room object.
\<close>

theorem C3_leave_deletes_synchronously_counterexample:
  "\<not> isl (run (lobby_trace @ [(5000, 0, PlayerLeave ''A'' ''r1'')]) init)
   \<and> map_of (rooms lobby_state) ''r1'' = Some 0
   \<and> map pid (players (heap lobby_state 0)) = [''A'']
   \<and> pending lobby_state = []
   \<and> map_of (rooms left_state) ''r1'' = None
   \<and> rooms left_state = []
   \<and> pending left_state = []
   \<and> map_of (rooms left_rejoined_state) ''r1'' = Some 1"
  by code_simp

text \<open>
  C3 (amended): a \<^verbatim>\<open>player:leave\<close> that empties the room's player list deletes the room
  synchronously and schedules nothing. The deletion is deferred when the room is emptied
  by its last player sending \<^verbatim>\<open>player:join\<close> for a different room: the room stays
  registered and a deletion is queued for later (the 2 s timeout of the source); when it
  fires, the room is deleted only if its player list is still empty, so a join to the
  same identifier before that keeps the room alive.
\<close>

theorem C3_leave_at_once_join_deferred:
  "((if trim roomId \<noteq> [] then Some (trim roomId) else socketToRoom s sid) = Some k \<longrightarrow>
      k \<noteq> [] \<longrightarrow> map_of (rooms s) k = Some a \<longrightarrow> players (heap s a) = [p] \<longrightarrow>
      pid p = sid \<longrightarrow>
      (\<exists>s' out. playerLeave now sid roomId s = Inr (s', out)
          \<and> map_of (rooms s') k = None \<and> pending s' = pending s))
   \<and> (socketToRoom s sid = Some k \<longrightarrow> k \<noteq> [] \<longrightarrow> k \<noteq> cleanRoomIdOf roomId \<longrightarrow>
        map_of (rooms s) k = Some a \<longrightarrow> trim nm \<noteq> [] \<longrightarrow>
        filter (\<lambda>p. pid p \<noteq> sid) (players (heap s a)) = [] \<longrightarrow>
        map_of (rooms (fst (playerJoin now pick sid roomId nm s))) k = Some a
        \<and> DeletePrevRoom k \<in> set (pending (fst (playerJoin now pick sid roomId nm s))))
   \<and> (n < length (pending s) \<longrightarrow> pending s ! n = DeletePrevRoom k \<longrightarrow>
        map_of (rooms s) k = Some a \<longrightarrow> players (heap s a) \<noteq> [] \<longrightarrow>
        (\<exists>s'. deferredFire n s = Inr (s', []) \<and> rooms s' = rooms s))
   \<and> (n < length (pending s) \<longrightarrow> pending s ! n = DeletePrevRoom k \<longrightarrow>
        map_of (rooms s) k = Some a \<longrightarrow> players (heap s a) = [] \<longrightarrow>
        (\<exists>s' out. deferredFire n s = Inr (s', out) \<and> map_of (rooms s') k = None))"
proof (intro conjI impI)
  assume "(if trim roomId \<noteq> [] then Some (trim roomId) else socketToRoom s sid) = Some k"
    "k \<noteq> []" "map_of (rooms s) k = Some a" "players (heap s a) = [p]" "pid p = sid"
  then show "\<exists>s' out. playerLeave now sid roomId s = Inr (s', out)
          \<and> map_of (rooms s') k = None \<and> pending s' = pending s"
    by (rule leave_last_player)
next
  assume h: "socketToRoom s sid = Some k" "k \<noteq> []" "k \<noteq> cleanRoomIdOf roomId"
    "map_of (rooms s) k = Some a" "trim nm \<noteq> []"
    "filter (\<lambda>p. pid p \<noteq> sid) (players (heap s a)) = []"
  from join_elsewhere_defers[OF h]
  show "map_of (rooms (fst (playerJoin now pick sid roomId nm s))) k = Some a"
    and "DeletePrevRoom k \<in> set (pending (fst (playerJoin now pick sid roomId nm s)))"
    by simp_all
next
  assume h: "n < length (pending s)" "pending s ! n = DeletePrevRoom k"
    "map_of (rooms s) k = Some a" and ne: "players (heap s a) \<noteq> []"
  from fire_deletion(1)[OF h] ne
  show "\<exists>s'. deferredFire n s = Inr (s', []) \<and> rooms s' = rooms s" by blast
next
  assume h: "n < length (pending s)" "pending s ! n = DeletePrevRoom k"
    "map_of (rooms s) k = Some a" and em: "players (heap s a) = []"
  from fire_deletion(2)[OF h] em
  show "\<exists>s' out. deferredFire n s = Inr (s', out) \<and> map_of (rooms s') k = None" by blast
qed

theorem C3_leave_at_once_join_deferred_witness:
  "(if trim ''r1'' \<noteq> [] then Some (trim ''r1'') else socketToRoom lobby_state ''A'')
     = Some ''r1''
   \<and> ''r1'' \<noteq> []
   \<and> map_of (rooms lobby_state) ''r1'' = Some 0
   \<and> players (heap lobby_state 0) = [mkPlayer ''A'' ''Al'' 0 0]
   \<and> pid (mkPlayer ''A'' ''Al'' 0 0) = ''A''
   \<and> (\<exists>s' out. playerLeave 5000 ''A'' ''r1'' lobby_state = Inr (s', out)
          \<and> map_of (rooms s') ''r1'' = None \<and> pending s' = pending lobby_state)
   \<and> socketToRoom lobby_state ''A'' = Some ''r1''
   \<and> ''r1'' \<noteq> cleanRoomIdOf ''r2''
   \<and> trim ''Al'' \<noteq> []
   \<and> filter (\<lambda>p. pid p \<noteq> ''A'') (players (heap lobby_state 0)) = []
   \<and> map_of (rooms (fst (playerJoin 5000 0 ''A'' ''r2'' ''Al'' lobby_state))) ''r1'' = Some 0
   \<and> DeletePrevRoom ''r1''
        \<in> set (pending (fst (playerJoin 5000 0 ''A'' ''r2'' ''Al'' lobby_state)))
   \<and> 0 < length (pending rejoined_state)
   \<and> pending rejoined_state ! 0 = DeletePrevRoom ''r1''
   \<and> map_of (rooms rejoined_state) ''r1'' = Some 0
   \<and> players (heap rejoined_state 0) \<noteq> []
   \<and> (\<exists>s'. deferredFire 0 rejoined_state = Inr (s', []) \<and> rooms s' = rooms rejoined_state)
   \<and> 0 < length (pending moved_state)
   \<and> pending moved_state ! 0 = DeletePrevRoom ''r1''
   \<and> map_of (rooms moved_state) ''r1'' = Some 0
   \<and> players (heap moved_state 0) = []
   \<and> (\<exists>s' out. deferredFire 0 moved_state = Inr (s', out) \<and> map_of (rooms s') ''r1'' = None)"
proof -
  have a1: "(if trim ''r1'' \<noteq> [] then Some (trim ''r1'') else socketToRoom lobby_state ''A'')
     = Some ''r1''" by code_simp
  have a2: "''r1'' \<noteq> []" by simp
  have a3: "map_of (rooms lobby_state) ''r1'' = Some 0" by code_simp
  have a4: "players (heap lobby_state 0) = [mkPlayer ''A'' ''Al'' 0 0]" by code_simp
  have a5: "pid (mkPlayer ''A'' ''Al'' 0 0) = ''A''" by code_simp
  have b1: "socketToRoom lobby_state ''A'' = Some ''r1''" by code_simp
  have b2: "''r1'' \<noteq> cleanRoomIdOf ''r2''" by code_simp
  have b3: "trim ''Al'' \<noteq> []" by code_simp
  have b4: "filter (\<lambda>p. pid p \<noteq> ''A'') (players (heap lobby_state 0)) = []" by code_simp
  have c1: "0 < length (pending rejoined_state)" by code_simp
  have c2: "pending rejoined_state ! 0 = DeletePrevRoom ''r1''" by code_simp
  have c3: "map_of (rooms rejoined_state) ''r1'' = Some 0" by code_simp
  have c4: "players (heap rejoined_state 0) \<noteq> []" by code_simp
  have d1: "0 < length (pending moved_state)" by code_simp
  have d2: "pending moved_state ! 0 = DeletePrevRoom ''r1''" by code_simp
  have d3: "map_of (rooms moved_state) ''r1'' = Some 0" by code_simp
  have d4: "players (heap moved_state 0) = []" by code_simp
  note ta = C3_leave_at_once_join_deferred
              [where s = lobby_state and roomId = "''r1''" and sid = "''A''" and k = "''r1''"
                 and a = 0 and p = "mkPlayer ''A'' ''Al'' 0 0" and now = 5000]
  note tb = C3_leave_at_once_join_deferred
              [where s = lobby_state and roomId = "''r2''" and sid = "''A''" and k = "''r1''"
                 and a = 0 and nm = "''Al''" and now = 5000 and pick = 0]
  note tc = C3_leave_at_once_join_deferred
              [where s = rejoined_state and n = 0 and k = "''r1''" and a = 0]
  note td = C3_leave_at_once_join_deferred
              [where s = moved_state and n = 0 and k = "''r1''" and a = 0]
  from ta a1 a2 a3 a4 a5
  have ra: "\<exists>s' out. playerLeave 5000 ''A'' ''r1'' lobby_state = Inr (s', out)
          \<and> map_of (rooms s') ''r1'' = None \<and> pending s' = pending lobby_state" by blast
  from tb b1 a2 b2 a3 b3 b4
  have rb: "map_of (rooms (fst (playerJoin 5000 0 ''A'' ''r2'' ''Al'' lobby_state))) ''r1'' = Some 0
     \<and> DeletePrevRoom ''r1''
        \<in> set (pending (fst (playerJoin 5000 0 ''A'' ''r2'' ''Al'' lobby_state)))" by blast
  from tc c1 c2 c3 c4
  have rc: "\<exists>s'. deferredFire 0 rejoined_state = Inr (s', []) \<and> rooms s' = rooms rejoined_state"
    by blast
  from td d1 d2 d3 d4
  have rd: "\<exists>s' out. deferredFire 0 moved_state = Inr (s', out) \<and> map_of (rooms s') ''r1'' = None"
    by blast
  from rb have rb1: "map_of (rooms (fst (playerJoin 5000 0 ''A'' ''r2'' ''Al'' lobby_state))) ''r1'' = Some 0"
    and rb2: "DeletePrevRoom ''r1''
        \<in> set (pending (fst (playerJoin 5000 0 ''A'' ''r2'' ''Al'' lobby_state)))" by simp_all
  show ?thesis
    by (intro conjI)
       (fact a1, fact a2, fact a3, fact a4, fact a5, fact ra, fact b1, fact b2, fact b3, fact b4,
        fact rb1, fact rb2, fact c1, fact c2, fact c3, fact c4, fact rc,
        fact d1, fact d2, fact d3, fact d4, fact rd)
qed

subsection \<open>The drawer award in a room with a duplicated socket id\<close>

text \<open>
  C7: the handler credits the guesser and then looks the drawer up again by socket id
  (\<^verbatim>\<open>room.players.find((p) => p.id === drawer.id)\<close>) instead of crediting the drawer it
  already holds. After \<open>dup_trace\<close> the room is in phase \<open>drawing\<close> with no guess yet, the
  entries of Al and of Bob carry the same socket id and Bob, the second entry, is the
  drawer. Cy, who is not the drawer, submits the word: Cy gets +2, the +1 of the drawer
  goes to Al, the first entry with that id, and Bob, the drawer, gets nothing.
\<close>

theorem C7_drawer_award_goes_to_first_entry_with_id:
  "\<not> isl (run dup_trace init)
   \<and> map (\<lambda>p. (pid p, name p, score p)) (players (heap dup_state 0))
       = [(''A'', ''Al'', 0), (''A'', ''Bob'', 0), (''C'', ''Cy'', 0)]
   \<and> map_of (rooms dup_state) ''r1'' = Some 0
   \<and> phase (heap dup_state 0) = Drawing
   \<and> guessedThisRound (heap dup_state 0) = {}
   \<and> word (heap dup_state 0) = Some ''House''
   \<and> turnIndex (heap dup_state 0) = Some 1
   \<and> map_option name (indexMod (turnIndex (heap dup_state 0)) (players (heap dup_state 0)))
       = Some ''Bob''
   \<and> normalize_str ''house'' = normalize_str ''House''
   \<and> \<not> isl dup_guess
   \<and> map (\<lambda>p. (name p, score p)) (players (heap (fst (projr dup_guess)) 0))
       = [(''Al'', 1), (''Bob'', 0), (''Cy'', 2)]
   \<and> guessedThisRound (heap (fst (projr dup_guess)) 0) = {''C''}"
proof -
  have 1: "\<not> isl (run dup_trace init)" by code_simp
  have 2: "map (\<lambda>p. (pid p, name p, score p)) (players (heap dup_state 0))
       = [(''A'', ''Al'', 0), (''A'', ''Bob'', 0), (''C'', ''Cy'', 0)]" by code_simp
  have 3: "map_of (rooms dup_state) ''r1'' = Some 0" by code_simp
  have 4: "phase (heap dup_state 0) = Drawing" by code_simp
  have 5: "guessedThisRound (heap dup_state 0) = {}" by code_simp
  have 6: "word (heap dup_state 0) = Some ''House''" by code_simp
  have 7: "turnIndex (heap dup_state 0) = Some 1" by code_simp
  have 8: "map_option name (indexMod (turnIndex (heap dup_state 0)) (players (heap dup_state 0)))
       = Some ''Bob''" by code_simp
  have 9: "normalize_str ''house'' = normalize_str ''House''" by code_simp
  have 10: "\<not> isl dup_guess" by code_simp
  have 11: "map (\<lambda>p. (name p, score p)) (players (heap (fst (projr dup_guess)) 0))
       = [(''Al'', 1), (''Bob'', 0), (''Cy'', 2)]" by code_simp
  have 12: "guessedThisRound (heap (fst (projr dup_guess)) 0) = {''C''}" by code_simp
  show ?thesis
    by (intro conjI) (fact 1, fact 2, fact 3, fact 4, fact 5, fact 6, fact 7, fact 8, fact 9,
                      fact 10, fact 11, fact 12)
qed

subsection \<open>Who receives the word\<close>

text \<open>
  C4: \<^verbatim>\<open>startRound\<close> does not send the word; it queues a callback that, 50 ms later,
  sends whatever \<^verbatim>\<open>room.word\<close> is then to whatever the id of the player object it
  captured is then, without looking at the room again. After \<open>stale_trace\<close> Al has left
  r1 and is in no room, r1 is in phase \<open>drawing\<close> with Bob as drawer and the word "House",
  and the delivery queued for Al's round is still pending: when it fires, the
  \<^verbatim>\<open>round:word\<close> message carrying "House", the word of Bob's round, is sent to Al. Al can
  then join r1 again and submit it: the guess is accepted and scores +2.
\<close>

theorem C4_word_sent_to_player_who_left:
  "\<not> isl (run stale_trace init)
   \<and> map pid (players (heap stale_state 0)) = [''B'', ''C'']
   \<and> map_of (rooms stale_state) ''r1'' = Some 0
   \<and> socketToRoom stale_state ''A'' = None
   \<and> phase (heap stale_state 0) = Drawing
   \<and> word (heap stale_state 0) = Some ''House''
   \<and> map_option pid (indexMod (turnIndex (heap stale_state 0)) (players (heap stale_state 0)))
       = Some ''B''
   \<and> pending stale_state = [WordDelivery 0 (Some (0, ''A'')), WordDelivery 0 (Some (1, ''B''))]
   \<and> \<not> isl stale_delivery
   \<and> snd (projr stale_delivery) = [(IoTo ''A'', RoundWord (Some ''House''))]
   \<and> \<not> isl (run stale_guess_trace init)
   \<and> map (\<lambda>p. (pid p, score p)) (players (heap stale_guess_state 0))
       = [(''B'', 1), (''C'', 0), (''A'', 2)]
   \<and> guessedThisRound (heap stale_guess_state 0) = {''A''}"
proof -
  have 1: "\<not> isl (run stale_trace init)" by code_simp
  have 2: "map pid (players (heap stale_state 0)) = [''B'', ''C'']" by code_simp
  have 3: "map_of (rooms stale_state) ''r1'' = Some 0" by code_simp
  have 4: "socketToRoom stale_state ''A'' = None" by code_simp
  have 5: "phase (heap stale_state 0) = Drawing" by code_simp
  have 6: "word (heap stale_state 0) = Some ''House''" by code_simp
  have 7: "map_option pid (indexMod (turnIndex (heap stale_state 0))
                                    (players (heap stale_state 0))) = Some ''B''" by code_simp
  have 8: "pending stale_state
             = [WordDelivery 0 (Some (0, ''A'')), WordDelivery 0 (Some (1, ''B''))]"
    by code_simp
  have 9: "\<not> isl stale_delivery" by code_simp
  have 10: "snd (projr stale_delivery) = [(IoTo ''A'', RoundWord (Some ''House''))]"
    by code_simp
  have 11: "\<not> isl (run stale_guess_trace init)" by code_simp
  have 12: "map (\<lambda>p. (pid p, score p)) (players (heap stale_guess_state 0))
       = [(''B'', 1), (''C'', 0), (''A'', 2)]" by code_simp
  have 13: "guessedThisRound (heap stale_guess_state 0) = {''A''}" by code_simp
  show ?thesis
    by (intro conjI) (fact 1, fact 2, fact 3, fact 4, fact 5, fact 6, fact 7, fact 8, fact 9,
                      fact 10, fact 11, fact 12, fact 13)
qed

subsection \<open>Who the drawer is\<close>

lemma skip_by_drawer:
  assumes rm: "map_of (rooms s) roomId = Some a"
      and dr: "map_option pid (indexMod (turnIndex (heap s a)) (players (heap s a))) = Some sid"
  shows "\<exists>s' out. roundSkip now sid roomId s = Inr (s', out)
           \<and> phase (heap s' a) \<noteq> Drawing
           \<and> (IoTo (rid (heap s a)), RoundEnded (rid (heap s a)) Skipped) \<in> set out"
proof -
  from dr obtain d where d: "indexMod (turnIndex (heap s a)) (players (heap s a)) = Some d"
    "pid d = sid" by auto
  from d(1) have "players (heap s a) \<noteq> []"
    by (auto simp: indexMod_def split: option.splits if_splits)
  then obtain s' out where er: "endRound now a Skipped s = Inr (s', out)"
    using endRound_total[of s a now Skipped] by blast
  have "roundSkip now sid roomId s = Inr (s', out)"
    unfolding roundSkip_def using rm d er by simp
  with endRound_room(5,6)[OF er] show ?thesis by blast
qed

lemma stroke_by_drawer:
  assumes "map_of (rooms s) (trim roomId) = Some a"
      and "map_option pid (indexMod (turnIndex (heap s a)) (players (heap s a))) = Some sid"
      and "points \<noteq> []"
  shows "drawStroke sid roomId points s
           = (s, [(SocketTo sid (trim roomId), DrawStroke (trim roomId) points)])"
  using assms unfolding drawStroke_def Let_def by (auto split: option.splits)

lemma guess_by_other:
  assumes rm: "map_of (rooms s) (trim roomId) = Some a"
      and ph: "phase (heap s a) = Drawing"
      and fd: "find (\<lambda>p. pid p = sid) (players (heap s a)) = Some pl"
      and dr: "map_option pid (indexMod (turnIndex (heap s a)) (players (heap s a))) = Some did"
      and nd: "did \<noteq> sid"
      and ng: "guessedThisRound (heap s a) = {}"
      and wd: "word (heap s a) = Some w"
      and eq: "normalize_str guess = normalize_str w"
      and ne: "normalize_str w \<noteq> []"
  shows "\<exists>s' out. guessSubmit now sid roomId guess s = Inr (s', out)
           \<and> guessedThisRound (heap s' a) = {sid}
           \<and> phase (heap s' a) \<noteq> Drawing
           \<and> (IoTo (rid (heap s a)), RoundEnded (rid (heap s a)) Guessed) \<in> set out"
proof -
  let ?ps = "players (heap s a)"
  from dr obtain d where d: "indexMod (turnIndex (heap s a)) ?ps = Some d" "pid d = did"
    by auto
  from d(1) have nonempty: "?ps \<noteq> []"
    by (auto simp: indexMod_def split: option.splits if_splits)
  let ?s1 = "updRoom a (\<lambda>r. r\<lparr> players := awardPoints sid (pid d) (players r),
                               guessedThisRound := insert sid (guessedThisRound r) \<rparr>) s"
  have "length (players (heap ?s1 a)) = length ?ps" by simp
  with nonempty have "players (heap ?s1 a) \<noteq> []" by (metis length_0_conv)
  then obtain s' out where er: "endRound now a Guessed ?s1 = Inr (s', out)"
    using endRound_total[of ?s1 a now Guessed] by blast
  have res: "guessSubmit now sid roomId guess s
               = Inr (s', emitScoreUpdate (heap ?s1 a)
                          @ [(IoTo (trim roomId),
                              ChatMessage (trim roomId) ''System''
                                (name pl @ '' guessed it!'') True)] @ out)"
    unfolding guessSubmit_def Let_def
    using rm ph ng fd d nd wd eq ne er by simp
  have gs: "guessedThisRound (heap s' a) = {sid}"
    using endRound_room(2)[OF er, of a] ng by simp
  have ev: "(IoTo (rid (heap s a)), RoundEnded (rid (heap s a)) Guessed) \<in> set out"
    using endRound_room(6)[OF er] by simp
  from res gs ev endRound_room(5)[OF er] show ?thesis by simp
qed

text \<open>
  C9: the \<^verbatim>\<open>drawerId\<close> of the \<^verbatim>\<open>room:state\<close> broadcast is the player at
  \<open>turnIndex\<close> modulo the number of connected players, taken from the connected players;
  the drawer of the permission checks of \<^verbatim>\<open>round:skip\<close>, \<^verbatim>\<open>draw:stroke\<close> and
  \<^verbatim>\<open>guess:submit\<close> is the player at \<open>turnIndex\<close> modulo the number of all players,
  disconnected ones included. Whoever is not that player cannot skip or draw, and that
  player cannot guess; that player can skip (the round ends with reason \<open>skipped\<close>) and
  draw (the stroke is relayed to the others in the room), and any other player of the
  room can guess (a correct first guess is recorded and ends the round). The two drawers
  disagree in a reachable state: after \<open>drawer_split_trace\<close> (a disconnected player ahead
  in turn order) the broadcast names Cy while the checks use Bob, so there Bob skips and
  draws and Cy, the displayed drawer, guesses; the \<^verbatim>\<open>room:state\<close> message that the start
  of that round sends to the room already names Cy.
\<close>

theorem C9_displayed_and_authoritative_drawer:
  "rs_drawerId (roomStatePayload now room)
     = (if phase room \<noteq> Lobby
        then map_option pid (indexMod (turnIndex room) (filter connected (players room)))
        else None)
   \<and> (map_of (rooms s) roomId = Some a \<longrightarrow>
        map_option pid (indexMod (turnIndex (heap s a)) (players (heap s a))) \<noteq> Some sid \<longrightarrow>
        roundSkip now sid roomId s = Inr (s, []))
   \<and> (map_of (rooms s) (trim roomId) = Some a \<longrightarrow>
        map_option pid (indexMod (turnIndex (heap s a)) (players (heap s a))) \<noteq> Some sid \<longrightarrow>
        drawStroke sid roomId points s = (s, []))
   \<and> (map_of (rooms s) (trim roomId) = Some a \<longrightarrow>
        map_option pid (indexMod (turnIndex (heap s a)) (players (heap s a))) = Some sid \<longrightarrow>
        guessSubmit now sid roomId guess s = Inr (s, []))
   \<and> (map_of (rooms s) roomId = Some a \<longrightarrow>
        map_option pid (indexMod (turnIndex (heap s a)) (players (heap s a))) = Some sid \<longrightarrow>
        (\<exists>s' out. roundSkip now sid roomId s = Inr (s', out)
           \<and> phase (heap s' a) \<noteq> Drawing
           \<and> (IoTo (rid (heap s a)), RoundEnded (rid (heap s a)) Skipped) \<in> set out))
   \<and> (map_of (rooms s) (trim roomId) = Some a \<longrightarrow>
        map_option pid (indexMod (turnIndex (heap s a)) (players (heap s a))) = Some sid \<longrightarrow>
        points \<noteq> [] \<longrightarrow>
        drawStroke sid roomId points s
          = (s, [(SocketTo sid (trim roomId), DrawStroke (trim roomId) points)]))
   \<and> (map_of (rooms s) (trim roomId) = Some a \<longrightarrow>
        phase (heap s a) = Drawing \<longrightarrow>
        find (\<lambda>p. pid p = sid) (players (heap s a)) = Some pl \<longrightarrow>
        map_option pid (indexMod (turnIndex (heap s a)) (players (heap s a))) = Some did \<longrightarrow>
        did \<noteq> sid \<longrightarrow>
        guessedThisRound (heap s a) = {} \<longrightarrow>
        word (heap s a) = Some w \<longrightarrow>
        normalize_str guess = normalize_str w \<longrightarrow>
        normalize_str w \<noteq> [] \<longrightarrow>
        (\<exists>s' out. guessSubmit now sid roomId guess s = Inr (s', out)
           \<and> guessedThisRound (heap s' a) = {sid}
           \<and> phase (heap s' a) \<noteq> Drawing
           \<and> (IoTo (rid (heap s a)), RoundEnded (rid (heap s a)) Guessed) \<in> set out))
   \<and> \<not> isl (run drawer_split_trace init)
   \<and> phase (heap drawer_split_state 0) = Drawing
   \<and> rs_drawerId (roomStatePayload 14000 (heap drawer_split_state 0)) = Some ''C''
   \<and> map_option pid (indexMod (turnIndex (heap drawer_split_state 0))
                               (players (heap drawer_split_state 0))) = Some ''B''
   \<and> broadcastRoomState now room = [(IoTo (rid room), RoomState (roomStatePayload now room))]
   \<and> \<not> isl split_round_start
   \<and> (IoTo ''r1'', RoomState (roomStatePayload 13000 (heap (fst (projr split_round_start)) 0)))
        \<in> set (snd (projr split_round_start))
   \<and> rs_drawerId (roomStatePayload 13000 (heap (fst (projr split_round_start)) 0))
        = Some ''C''
   \<and> map_option pid (indexMod (turnIndex (heap (fst (projr split_round_start)) 0))
                               (players (heap (fst (projr split_round_start)) 0))) = Some ''B''"
proof (intro conjI impI)
  show "rs_drawerId (roomStatePayload now room)
     = (if phase room \<noteq> Lobby
        then map_option pid (indexMod (turnIndex room) (filter connected (players room)))
        else None)"
    by (simp add: roomStatePayload_def Let_def)
next
  assume "map_of (rooms s) roomId = Some a"
     and "map_option pid (indexMod (turnIndex (heap s a)) (players (heap s a))) \<noteq> Some sid"
  then show "roundSkip now sid roomId s = Inr (s, [])"
    unfolding roundSkip_def by (auto split: option.splits)
next
  assume "map_of (rooms s) (trim roomId) = Some a"
     and "map_option pid (indexMod (turnIndex (heap s a)) (players (heap s a))) \<noteq> Some sid"
  then show "drawStroke sid roomId points s = (s, [])"
    unfolding drawStroke_def Let_def by (auto split: option.splits)
next
  assume "map_of (rooms s) (trim roomId) = Some a"
     and "map_option pid (indexMod (turnIndex (heap s a)) (players (heap s a))) = Some sid"
  then show "guessSubmit now sid roomId guess s = Inr (s, [])"
    unfolding guessSubmit_def Let_def by (auto split: option.splits)
next
  assume "map_of (rooms s) roomId = Some a"
     and "map_option pid (indexMod (turnIndex (heap s a)) (players (heap s a))) = Some sid"
  then show "\<exists>s' out. roundSkip now sid roomId s = Inr (s', out)
           \<and> phase (heap s' a) \<noteq> Drawing
           \<and> (IoTo (rid (heap s a)), RoundEnded (rid (heap s a)) Skipped) \<in> set out"
    by (rule skip_by_drawer)
next
  assume "map_of (rooms s) (trim roomId) = Some a"
     and "map_option pid (indexMod (turnIndex (heap s a)) (players (heap s a))) = Some sid"
     and "points \<noteq> []"
  then show "drawStroke sid roomId points s
          = (s, [(SocketTo sid (trim roomId), DrawStroke (trim roomId) points)])"
    by (rule stroke_by_drawer)
next
  assume "map_of (rooms s) (trim roomId) = Some a" "phase (heap s a) = Drawing"
    "find (\<lambda>p. pid p = sid) (players (heap s a)) = Some pl"
    "map_option pid (indexMod (turnIndex (heap s a)) (players (heap s a))) = Some did"
    "did \<noteq> sid" "guessedThisRound (heap s a) = {}" "word (heap s a) = Some w"
    "normalize_str guess = normalize_str w" "normalize_str w \<noteq> []"
  then show "\<exists>s' out. guessSubmit now sid roomId guess s = Inr (s', out)
           \<and> guessedThisRound (heap s' a) = {sid}
           \<and> phase (heap s' a) \<noteq> Drawing
           \<and> (IoTo (rid (heap s a)), RoundEnded (rid (heap s a)) Guessed) \<in> set out"
    by (rule guess_by_other)
next
  show "\<not> isl (run drawer_split_trace init)" by code_simp
next
  show "phase (heap drawer_split_state 0) = Drawing" by code_simp
next
  show "rs_drawerId (roomStatePayload 14000 (heap drawer_split_state 0)) = Some ''C''"
    by code_simp
next
  show "map_option pid (indexMod (turnIndex (heap drawer_split_state 0))
                               (players (heap drawer_split_state 0))) = Some ''B''"
    by code_simp
next
  show "broadcastRoomState now room
          = [(IoTo (rid room), RoomState (roomStatePayload now room))]"
    by (simp add: broadcastRoomState_def)
next
  show "\<not> isl split_round_start" by code_simp
next
  show "(IoTo ''r1'', RoomState (roomStatePayload 13000 (heap (fst (projr split_round_start)) 0)))
        \<in> set (snd (projr split_round_start))" by code_simp
next
  show "rs_drawerId (roomStatePayload 13000 (heap (fst (projr split_round_start)) 0))
        = Some ''C''" by code_simp
next
  show "map_option pid (indexMod (turnIndex (heap (fst (projr split_round_start)) 0))
                               (players (heap (fst (projr split_round_start)) 0))) = Some ''B''"
    by code_simp
qed

theorem C9_displayed_and_authoritative_drawer_witness:
  "map_of (rooms drawer_split_state) ''r1'' = Some 0
   \<and> map_of (rooms drawer_split_state) (trim ''r1'') = Some 0
   \<and> map_option pid (indexMod (turnIndex (heap drawer_split_state 0))
                               (players (heap drawer_split_state 0))) \<noteq> Some ''C''
   \<and> map_option pid (indexMod (turnIndex (heap drawer_split_state 0))
                               (players (heap drawer_split_state 0))) = Some ''B''
   \<and> rs_drawerId (roomStatePayload 14000 (heap drawer_split_state 0)) = Some ''C''
   \<and> roundSkip 14000 ''C'' ''r1'' drawer_split_state = Inr (drawer_split_state, [])
   \<and> drawStroke ''C'' ''r1'' [(1, 2), (3, 4)] drawer_split_state = (drawer_split_state, [])
   \<and> guessSubmit 14000 ''B'' ''r1'' ''house'' drawer_split_state
       = Inr (drawer_split_state, [])
   \<and> rid (heap drawer_split_state 0) = ''r1''
   \<and> \<not> isl split_skip
   \<and> phase (heap (fst (projr split_skip)) 0) \<noteq> Drawing
   \<and> (IoTo ''r1'', RoundEnded ''r1'' Skipped) \<in> set (snd (projr split_skip))
   \<and> [(1, 2), (3, 4)] \<noteq> ([] :: (int \<times> int) list)
   \<and> drawStroke ''B'' ''r1'' [(1, 2), (3, 4)] drawer_split_state
       = (drawer_split_state, [(SocketTo ''B'' ''r1'', DrawStroke ''r1'' [(1, 2), (3, 4)])])
   \<and> phase (heap drawer_split_state 0) = Drawing
   \<and> find (\<lambda>p. pid p = ''C'') (players (heap drawer_split_state 0))
       = Some (mkPlayer ''C'' ''Cy'' 0 2)
   \<and> ''B'' \<noteq> ''C''
   \<and> guessedThisRound (heap drawer_split_state 0) = {}
   \<and> word (heap drawer_split_state 0) = Some ''House''
   \<and> normalize_str '' House'' = normalize_str ''House''
   \<and> normalize_str ''House'' \<noteq> []
   \<and> \<not> isl split_guess
   \<and> guessedThisRound (heap (fst (projr split_guess)) 0) = {''C''}
   \<and> phase (heap (fst (projr split_guess)) 0) \<noteq> Drawing
   \<and> (IoTo ''r1'', RoundEnded ''r1'' Guessed) \<in> set (snd (projr split_guess))"
proof -
  have 1: "map_of (rooms drawer_split_state) ''r1'' = Some 0" by code_simp
  have 2: "map_of (rooms drawer_split_state) (trim ''r1'') = Some 0" by code_simp
  have 3: "map_option pid (indexMod (turnIndex (heap drawer_split_state 0))
                               (players (heap drawer_split_state 0))) \<noteq> Some ''C''"
    by code_simp
  have 4: "map_option pid (indexMod (turnIndex (heap drawer_split_state 0))
                               (players (heap drawer_split_state 0))) = Some ''B''"
    by code_simp
  have tr: "trim ''r1'' = ''r1''" by code_simp
  have 5: "rid (heap drawer_split_state 0) = ''r1''" by code_simp
  have 6: "[(1, 2), (3, 4)] \<noteq> ([] :: (int \<times> int) list)" by simp
  have 7: "phase (heap drawer_split_state 0) = Drawing" by code_simp
  have 8: "find (\<lambda>p. pid p = ''C'') (players (heap drawer_split_state 0))
       = Some (mkPlayer ''C'' ''Cy'' 0 2)" by code_simp
  have 9: "''B'' \<noteq> ''C''" by simp
  have 10: "guessedThisRound (heap drawer_split_state 0) = {}" by code_simp
  have 11: "word (heap drawer_split_state 0) = Some ''House''" by code_simp
  have 12: "normalize_str '' House'' = normalize_str ''House''" by code_simp
  have 13: "normalize_str ''House'' \<noteq> []" by code_simp
  note c = C9_displayed_and_authoritative_drawer
         [where now = 14000 and room = "heap drawer_split_state 0"
            and s = drawer_split_state and roomId = "''r1''" and a = 0 and sid = "''C''"
            and points = "[(1, 2), (3, 4)]" and guess = "'' House''"
            and pl = "mkPlayer ''C'' ''Cy'' 0 2" and did = "''B''" and w = "''House''"]
  note b = C9_displayed_and_authoritative_drawer
         [where now = 14000 and room = "heap drawer_split_state 0"
            and s = drawer_split_state and roomId = "''r1''" and a = 0 and sid = "''B''"
            and points = "[(1, 2), (3, 4)]" and guess = "''house''"]
  note c2 = c[THEN conjunct2]
  note c3 = c2[THEN conjunct2]
  note c7 = c3[THEN conjunct2, THEN conjunct2, THEN conjunct2, THEN conjunct2]
  note c10 = c7[THEN conjunct2, THEN conjunct2, THEN conjunct2]
  note b4 = b[THEN conjunct2, THEN conjunct2, THEN conjunct2]
  note b5 = b4[THEN conjunct2]
  note b6 = b5[THEN conjunct2]
  have 14: "rs_drawerId (roomStatePayload 14000 (heap drawer_split_state 0)) = Some ''C''"
    by (rule c10[THEN conjunct1])
  have 15: "roundSkip 14000 ''C'' ''r1'' drawer_split_state = Inr (drawer_split_state, [])"
    by (rule c2[THEN conjunct1, rule_format, OF 1 3])
  have 16: "drawStroke ''C'' ''r1'' [(1, 2), (3, 4)] drawer_split_state
              = (drawer_split_state, [])"
    by (rule c3[THEN conjunct1, rule_format, OF 2 3])
  have 17: "guessSubmit 14000 ''B'' ''r1'' ''house'' drawer_split_state
              = Inr (drawer_split_state, [])"
    by (rule b4[THEN conjunct1, rule_format, OF 2 4])
  have "\<exists>s' out. roundSkip 14000 ''B'' ''r1'' drawer_split_state = Inr (s', out)
           \<and> phase (heap s' 0) \<noteq> Drawing
           \<and> (IoTo (rid (heap drawer_split_state 0)),
                RoundEnded (rid (heap drawer_split_state 0)) Skipped) \<in> set out"
    by (rule b5[THEN conjunct1, rule_format, OF 1 4])
  then have 18: "\<not> isl split_skip \<and> phase (heap (fst (projr split_skip)) 0) \<noteq> Drawing
           \<and> (IoTo ''r1'', RoundEnded ''r1'' Skipped) \<in> set (snd (projr split_skip))"
    unfolding split_skip_def 5 by (elim exE conjE) simp
  have "drawStroke ''B'' ''r1'' [(1, 2), (3, 4)] drawer_split_state
       = (drawer_split_state,
          [(SocketTo ''B'' (trim ''r1''), DrawStroke (trim ''r1'') [(1, 2), (3, 4)])])"
    by (rule b6[THEN conjunct1, rule_format, OF 2 4 6])
  then have 19: "drawStroke ''B'' ''r1'' [(1, 2), (3, 4)] drawer_split_state
       = (drawer_split_state, [(SocketTo ''B'' ''r1'', DrawStroke ''r1'' [(1, 2), (3, 4)])])"
    unfolding tr .
  have "\<exists>s' out. guessSubmit 14000 ''C'' ''r1'' '' House'' drawer_split_state = Inr (s', out)
           \<and> guessedThisRound (heap s' 0) = {''C''}
           \<and> phase (heap s' 0) \<noteq> Drawing
           \<and> (IoTo (rid (heap drawer_split_state 0)),
                RoundEnded (rid (heap drawer_split_state 0)) Guessed) \<in> set out"
    by (rule c7[THEN conjunct1, rule_format, OF 2 7 8 4 9 10 11 12 13])
  then have 20: "\<not> isl split_guess
           \<and> guessedThisRound (heap (fst (projr split_guess)) 0) = {''C''}
           \<and> phase (heap (fst (projr split_guess)) 0) \<noteq> Drawing
           \<and> (IoTo ''r1'', RoundEnded ''r1'' Guessed) \<in> set (snd (projr split_guess))"
    unfolding split_guess_def 5 by (elim exE conjE) simp
  from 18 have sk1: "\<not> isl split_skip" and sk2: "phase (heap (fst (projr split_skip)) 0) \<noteq> Drawing"
    and sk3: "(IoTo ''r1'', RoundEnded ''r1'' Skipped) \<in> set (snd (projr split_skip))"
    by simp_all
  from 20 have gs1: "\<not> isl split_guess"
    and gs2: "guessedThisRound (heap (fst (projr split_guess)) 0) = {''C''}"
    and gs3: "phase (heap (fst (projr split_guess)) 0) \<noteq> Drawing"
    and gs4: "(IoTo ''r1'', RoundEnded ''r1'' Guessed) \<in> set (snd (projr split_guess))"
    by simp_all
  show ?thesis
    by (intro conjI)
       (fact 1, fact 2, fact 3, fact 4, fact 14, fact 15, fact 16, fact 17, fact 5,
        fact sk1, fact sk2, fact sk3, fact 6, fact 19, fact 7, fact 8, fact 9, fact 10,
        fact 11, fact 12, fact 13, fact gs1, fact gs2, fact gs3, fact gs4)
qed

end
